theory Spec2Isabelle
  imports Main
begin

section \<open>The weekly scheduler of \<^verbatim>\<open>packages/azos-ui/vcl/time/scheduler.js\<close>\<close>

subsection \<open>Dates\<close>

text \<open>
  A JavaScript \<^verbatim>\<open>Date\<close> is modelled by its time value read in local civil time: the
  number of milliseconds since 1970-01-01T00:00 local time, every local day having
  86400000 ms (a zone with a fixed offset). 1970-01-01 is a Thursday.
\<close>

type_synonym date = int

definition calendarDay :: "date \<Rightarrow> int" where
  \<comment> \<open>the local calendar date, the information \<^verbatim>\<open>toDateString()\<close> and
      \<^verbatim>\<open>toLocaleDateString()\<close> print\<close>
  "calendarDay d = d div 86400000"

definition getDay :: "date \<Rightarrow> int" where
  \<comment> \<open>\<^verbatim>\<open>Date.prototype.getDay\<close>: 0 is Sunday\<close>
  "getDay d = (calendarDay d + 4) mod 7"

definition getDate :: "date \<Rightarrow> int" where
  \<comment> \<open>\<^verbatim>\<open>Date.prototype.getDate\<close>: the day of the month, 1 to 31, of the proleptic
      Gregorian calendar\<close>
  "getDate d =
     (let z = calendarDay d + 719468;
          era = z div 146097;
          doe = z - era * 146097;
          yoe = (doe - doe div 1460 + doe div 36524 - doe div 146096) div 365;
          doy = doe - (365 * yoe + yoe div 4 - yoe div 100);
          mp = (5 * doy + 2) div 153
      in doy - (153 * mp + 2) div 5 + 1)"

definition setHours0 :: "date \<Rightarrow> date" where
  \<comment> \<open>\<^verbatim>\<open>dt.setHours(0, 0, 0, 0)\<close>\<close>
  "setHours0 d = d - d mod 86400000"

definition setDate :: "date \<Rightarrow> int \<Rightarrow> date" where
  \<comment> \<open>\<^verbatim>\<open>dt.setDate(n)\<close>: day \<open>n\<close> of the month of \<open>dt\<close>, days outside the month
      carrying over into the neighbouring months; the time of day is kept\<close>
  "setDate d n = d + (n - getDate d) * 86400000"

subsection \<open>Values, errors and scheduling items\<close>

text \<open>
  The fields of the object literal handed to \<^verbatim>\<open>addItem\<close> are untyped JavaScript values.
  \<^verbatim>\<open>JFun\<close> carries a tag for the function, \<^verbatim>\<open>JObj\<close> is a plain object whose content the
  scheduler never reads.
\<close>

datatype jsval = JUndefined | JNull | JNum int | JStr string | JDate date | JObj | JFun nat

datatype error =
    AvermentFailure string
  | Unimplemented
  | TypeError

text \<open>
  The modules \<^verbatim>\<open>azos/types\<close> and \<^verbatim>\<open>azos/aver\<close> are imported by the scheduler; their
  predicates are taken by their names: \<^verbatim>\<open>aver.isX(v)\<close> returns \<open>v\<close> when \<^verbatim>\<open>types.isX(v)\<close>
  holds and throws otherwise.
\<close>

definition isNonEmptyString :: "jsval \<Rightarrow> bool" where
  "isNonEmptyString v = (case v of JStr s \<Rightarrow> s \<noteq> [] | _ \<Rightarrow> False)"

definition isFunction :: "jsval \<Rightarrow> bool" where
  "isFunction v = (case v of JFun f \<Rightarrow> True | _ \<Rightarrow> False)"

definition isObject :: "jsval \<Rightarrow> bool" where
  "isObject v = (case v of JObj \<Rightarrow> True | JDate d \<Rightarrow> True | _ \<Rightarrow> False)"

record itemSpec =
  spec_caption :: jsval
  spec_day :: jsval
  spec_startTimeMins :: jsval
  spec_data :: jsval
  spec_durationMins :: jsval

record schedulingItem =
  itemId :: nat
  day :: date
  caption :: jsval
  startTimeMins :: int
  durationMins :: int
  data :: jsval

definition endTimeMins :: "schedulingItem \<Rightarrow> int" where
  \<comment> \<open>\<^verbatim>\<open>get endTimeMins() { return this.#startTimeMins + this.durationMins - 1; }\<close>\<close>
  "endTimeMins item = startTimeMins item + durationMins item - 1"

definition SchedulingItem :: "nat \<Rightarrow> itemSpec \<Rightarrow> error + schedulingItem" where
  \<comment> \<open>the constructor body; \<open>newId\<close> is the value \<^verbatim>\<open>++SchedulingItem.#seed\<close> gave the
      field \<^verbatim>\<open>#id\<close> before the body ran\<close>
  "SchedulingItem newId spec =
     (if spec_caption spec \<noteq> JNull \<and> \<not> isNonEmptyString (spec_caption spec)
         \<and> \<not> isFunction (spec_caption spec)
      then Inl (AvermentFailure ''isNonEmptyString'')
      else case spec_day spec of
        JDate d \<Rightarrow>
          (case spec_startTimeMins spec of
             JNum sta \<Rightarrow>
               (case spec_durationMins spec of
                  JNum dur \<Rightarrow>
                    (if isObject (spec_data spec)
                     then Inr \<lparr> itemId = newId, day = d, caption = spec_caption spec,
                                startTimeMins = sta, durationMins = dur,
                                data = spec_data spec \<rparr>
                     else Inl (AvermentFailure ''isObject''))
                | _ \<Rightarrow> Inl (AvermentFailure ''isNumber''))
           | _ \<Rightarrow> Inl (AvermentFailure ''isNumber''))
      | _ \<Rightarrow> Inl (AvermentFailure ''isDate''))"

subsection \<open>The state of a scheduler\<close>

record dayBucket =
  bucketDay :: date
  items :: "schedulingItem list"

text \<open>
  The fields \<open>priv_\<dots>\<close> are the private \<^verbatim>\<open>#\<dots>\<close> caches of the class, \<open>None\<close> for
  \<^verbatim>\<open>null\<close>. \<open>seed\<close> is the class-wide counter \<^verbatim>\<open>SchedulingItem.#seed\<close>.
\<close>

record scheduler =
  schedulingItemsByDay :: "dayBucket list"
  priv_effectiveStartDate :: "date option"
  priv_effectiveEndDate :: "date option"
  viewStartDay :: int
  viewNumDays :: int
  priv_viewStartDate :: "date option"
  priv_timeSlotsView :: "(int \<times> bool) list option"
  viewStartTimeMins :: int
  viewEndTimeMins :: int
  timeViewRenderOffMins :: int
  timeViewGranularityMins :: int
  maxSelectedItems :: int
  selectedItems :: "schedulingItem list"
  use24HourTime :: bool
  seed :: nat

subsection \<open>Array helpers of JavaScript\<close>

fun findIndex :: "('a \<Rightarrow> bool) \<Rightarrow> 'a list \<Rightarrow> int" where
  "findIndex P [] = -1"
| "findIndex P (x # xs) =
     (if P x then 0 else (let r = findIndex P xs in if r < 0 then -1 else r + 1))"

definition js_slice :: "'a list \<Rightarrow> int \<Rightarrow> int \<Rightarrow> 'a list" where
  \<comment> \<open>\<^verbatim>\<open>Array.prototype.slice(start, end)\<close>: a negative index counts from the end, both
      are clamped to the array\<close>
  "js_slice xs start end =
     (let n = int (length xs);
          k = (if start < 0 then max (n + start) 0 else min start n);
          f = (if end < 0 then max (n + end) 0 else min end n)
      in take (nat (f - k)) (drop (nat k) xs))"

definition indexOf :: "'a list \<Rightarrow> 'a \<Rightarrow> int" where
  "indexOf xs x = findIndex (\<lambda>y. y = x) xs"

definition splice1 :: "'a list \<Rightarrow> int \<Rightarrow> 'a list" where
  \<comment> \<open>\<^verbatim>\<open>xs.splice(i, 1)\<close> for an index \<open>i\<close> inside the array\<close>
  "splice1 xs i = take (nat i) xs @ drop (nat i + 1) xs"

subsection \<open>The view window\<close>

definition calculateStartDate :: "scheduler \<Rightarrow> date \<Rightarrow> date" where
  "calculateStartDate s date =
     (let dt = setHours0 date
      in setDate dt (getDate dt - getDay dt + viewStartDay s))"

definition get_effectiveStartDate :: "date \<Rightarrow> scheduler \<Rightarrow> date \<times> scheduler" where
  \<comment> \<open>\<open>now\<close> is what \<^verbatim>\<open>new Date()\<close> returns\<close>
  "get_effectiveStartDate now s =
     (case priv_effectiveStartDate s of
        Some d \<Rightarrow> (d, s)
      | None \<Rightarrow>
          (let d = (case schedulingItemsByDay s of [] \<Rightarrow> now | b # bs \<Rightarrow> bucketDay b)
           in (d, s\<lparr> priv_effectiveStartDate := Some d, priv_viewStartDate := None \<rparr>)))"

definition get_viewStartDate :: "date \<Rightarrow> scheduler \<Rightarrow> date \<times> scheduler" where
  "get_viewStartDate now s =
     (case priv_viewStartDate s of
        Some d \<Rightarrow> (d, s)
      | None \<Rightarrow>
          (let (e, s1) = get_effectiveStartDate now s;
               v = calculateStartDate s1 e
           in (v, s1\<lparr> priv_viewStartDate := Some v \<rparr>)))"

definition set_viewStartDate :: "date \<Rightarrow> scheduler \<Rightarrow> error + scheduler" where
  \<comment> \<open>the cache \<^verbatim>\<open>#daysView\<close> the setter also clears is not part of the model\<close>
  "set_viewStartDate v s =
     (let v0 = setHours0 v
      in if getDay v0 = viewStartDay s
         then Inr (s\<lparr> priv_viewStartDate := Some v0 \<rparr>)
         else Inl (AvermentFailure ''Start Date should start on viewStartDay''))"

definition set_viewStartDay :: "int \<Rightarrow> scheduler \<Rightarrow> error + scheduler" where
  \<comment> \<open>the setter checks \<^verbatim>\<open>aver.isTrue(v >= 0 && v < 7)\<close> and stores the value; it leaves
      the cache \<^verbatim>\<open>#viewStartDate\<close> as it is\<close>
  "set_viewStartDay v s =
     (if v \<ge> 0 \<and> v < 7 then Inr (s\<lparr> viewStartDay := v \<rparr>)
      else Inl (AvermentFailure ''isTrue''))"

definition changeViewPage :: "int \<Rightarrow> date \<Rightarrow> scheduler \<Rightarrow> error + scheduler" where
  "changeViewPage count now s =
     (let (date, s1) = get_viewStartDate now s;
          (cur, s2) = get_viewStartDate now s1;
          date2 = setDate date (getDate cur + 7 * count)
      in set_viewStartDate date2 s2)"

definition set_timeViewGranularityMins :: "int \<Rightarrow> scheduler \<Rightarrow> error + scheduler" where
  \<comment> \<open>\<^verbatim>\<open>set timeViewGranularityMins(v) { throw Error("Unimplemented--anything outside of
      30 min causes infinite loop.") }\<close>\<close>
  "set_timeViewGranularityMins v s = Inl Unimplemented"

subsection \<open>Deriving the time bounds\<close>

definition calculateMinStartTime :: "scheduler \<Rightarrow> int option" where
  \<comment> \<open>\<^verbatim>\<open>d.day === this.#viewStartDate\<close> compares a bucket's \<^verbatim>\<open>Date\<close> object with the
      cache by identity; the cache holds \<^verbatim>\<open>null\<close> or an object made by
      \<^verbatim>\<open>calculateStartDate\<close> or handed to the setter, so no bucket matches.
      \<open>None\<close> is \<^verbatim>\<open>Infinity\<close> in the loop and \<^verbatim>\<open>null\<close> in the result.\<close>
  "calculateMinStartTime s =
     (let startDateIndex = findIndex (\<lambda>d. False) (schedulingItemsByDay s);
          viewDays = js_slice (schedulingItemsByDay s) startDateIndex
                       (startDateIndex + viewNumDays s)
      in fold (\<lambda>b minTime.
                 if items b = [] then minTime
                 else (let startTime = startTimeMins (hd (items b))
                       in case minTime of
                            None \<Rightarrow> Some startTime
                          | Some m \<Rightarrow> if startTime < m then Some startTime else minTime))
           viewDays None)"

definition calculateMaxEndTime :: "date \<Rightarrow> scheduler \<Rightarrow> int option \<times> scheduler" where
  \<comment> \<open>the callback of \<^verbatim>\<open>findIndex\<close> reads the getter \<^verbatim>\<open>this.viewStartDate\<close>, which fills
      the caches at the first bucket; with no bucket the callback never runs\<close>
  "calculateMaxEndTime now s =
     (let bs = schedulingItemsByDay s;
          (startDateIndex, s1) =
             (case bs of
                [] \<Rightarrow> (1 + findIndex (\<lambda>d. False) (rev bs), s)
              | b # bs' \<Rightarrow>
                  (let (v, s') = get_viewStartDate now s
                   in (1 + findIndex (\<lambda>d. bucketDay d < v) (rev bs), s')));
          viewDays = js_slice bs startDateIndex (startDateIndex + viewNumDays s1);
          maxTime = fold (\<lambda>b maxTime.
                            if items b = [] then maxTime
                            else (let endTime = endTimeMins (last (items b))
                                  in if endTime > maxTime then endTime else maxTime))
                      viewDays 0
      in (if maxTime = 0 then None else Some maxTime, s1))"

definition updateViewProperties :: "date \<Rightarrow> scheduler \<Rightarrow> scheduler" where
  "updateViewProperties now s =
     (let s1 = s\<lparr> priv_effectiveStartDate := None, priv_viewStartDate := None \<rparr>;
          s2 = s1\<lparr> viewStartTimeMins :=
                    (case calculateMinStartTime s1 of None \<Rightarrow> 9 * 60 | Some m \<Rightarrow> m) \<rparr>;
          (mx, s3) = calculateMaxEndTime now s2
      in s3\<lparr> viewEndTimeMins := (case mx of None \<Rightarrow> 17 * 60 | Some m \<Rightarrow> m) \<rparr>)"

definition constructor :: "date \<Rightarrow> nat \<Rightarrow> scheduler" where
  \<comment> \<open>\<open>seed0\<close> is the value of the class-wide id counter when the scheduler is made\<close>
  "constructor now seed0 =
     updateViewProperties now
       \<lparr> schedulingItemsByDay = [],
         priv_effectiveStartDate = None,
         priv_effectiveEndDate = None,
         viewStartDay = 1,
         viewNumDays = 6,
         priv_viewStartDate = None,
         priv_timeSlotsView = None,
         viewStartTimeMins = 0,
         viewEndTimeMins = 0,
         timeViewRenderOffMins = 60,
         timeViewGranularityMins = 30,
         maxSelectedItems = 2,
         selectedItems = [],
         use24HourTime = True,
         seed = seed0 \<rparr>"

subsection \<open>The item store\<close>

fun pushToFound :: "date \<Rightarrow> schedulingItem \<Rightarrow> dayBucket list \<Rightarrow> dayBucket list" where
  \<comment> \<open>\<^verbatim>\<open>found.items.push(item)\<close>, \<^verbatim>\<open>found\<close> being the first bucket of the calendar date\<close>
  "pushToFound d item [] = []"
| "pushToFound d item (b # bs) =
     (if calendarDay d = calendarDay (bucketDay b)
      then b\<lparr> items := items b @ [item] \<rparr> # bs
      else b # pushToFound d item bs)"

definition insertItem :: "schedulingItem \<Rightarrow> scheduler \<Rightarrow> scheduler" where
  \<comment> \<open>the part of \<^verbatim>\<open>addItem\<close> between the construction of the item and
      \<^verbatim>\<open>#updateViewProperties\<close>: find the bucket of the calendar date or push a new one
      and sort, then push the item. \<^verbatim>\<open>sort\<close> with the comparator
      \<^verbatim>\<open>new Date(a.day) - new Date(b.day)\<close> is the stable sort by time value.\<close>
  "insertItem item s =
     (let bs = schedulingItemsByDay s;
          bs1 = (case find (\<lambda>d. calendarDay (day item) = calendarDay (bucketDay d)) bs of
                   Some found \<Rightarrow> bs
                 | None \<Rightarrow>
                     sort_key bucketDay (bs @ [\<lparr> bucketDay = day item, items = [] \<rparr>]))
      in s\<lparr> schedulingItemsByDay := pushToFound (day item) item bs1 \<rparr>)"

definition addItem :: "itemSpec \<Rightarrow> date \<Rightarrow> scheduler \<Rightarrow> (error + schedulingItem) \<times> scheduler" where
  \<comment> \<open>the argument is an object literal, so \<^verbatim>\<open>types.isObjectOrArray(item)\<close> holds and the
      constructor runs; its field initialiser \<^verbatim>\<open>#id = ++SchedulingItem.#seed\<close> runs
      before the constructor body can throw\<close>
  "addItem spec now s =
     (let s0 = s\<lparr> seed := seed s + 1 \<rparr>
      in case SchedulingItem (seed s + 1) spec of
           Inl e \<Rightarrow> (Inl e, s0)
         | Inr item \<Rightarrow> (Inr item, updateViewProperties now (insertItem item s0)))"

fun addItems :: "(itemSpec \<times> date) list \<Rightarrow> scheduler \<Rightarrow> schedulingItem list \<times> scheduler" where
  \<comment> \<open>a sequence of \<^verbatim>\<open>addItem\<close> calls, each with its argument and the clock reading at the
      call; the result lists the items the calls returned, a call that throws returns none\<close>
  "addItems [] s = ([], s)"
| "addItems ((spec, now) # calls) s =
     (case addItem spec now s of
        (Inl e, s1) \<Rightarrow> addItems calls s1
      | (Inr item, s1) \<Rightarrow>
          (let (added, s2) = addItems calls s1 in (item # added, s2)))"

definition calculateTheDaysItems :: "date \<Rightarrow> scheduler \<Rightarrow> schedulingItem list option" where
  \<comment> \<open>\<open>None\<close> is the \<^verbatim>\<open>undefined\<close> of \<^verbatim>\<open>found?.items\<close>\<close>
  "calculateTheDaysItems date s =
     (case find (\<lambda>b. calendarDay (bucketDay b) = calendarDay date) (schedulingItemsByDay s) of
        None \<Rightarrow> None
      | Some found \<Rightarrow> Some (items found))"

subsection \<open>Selection\<close>

definition handleSelectItem :: "schedulingItem \<Rightarrow> scheduler \<Rightarrow> scheduler" where
  \<comment> \<open>\<^verbatim>\<open>indexOf\<close> compares object references; every item object has its own \<open>itemId\<close>,
      so equal records are the same object\<close>
  "handleSelectItem item s =
     (let itemIndex = indexOf (selectedItems s) item
      in if itemIndex > -1
         then s\<lparr> selectedItems := splice1 (selectedItems s) itemIndex \<rparr>
         else if int (length (selectedItems s)) \<ge> maxSelectedItems s
              then (if maxSelectedItems s > 1 then s
                    else s\<lparr> selectedItems := [] @ [item] \<rparr>)
              else s\<lparr> selectedItems := selectedItems s @ [item] \<rparr>)"

subsection \<open>The slot axis and the placement pass\<close>

partial_function (option) timeSlotsLoop ::
  "int \<Rightarrow> int \<Rightarrow> int \<Rightarrow> int \<Rightarrow> int \<Rightarrow> (int \<times> bool) list \<Rightarrow> (int \<times> bool) list option" where
  "timeSlotsLoop viewStart viewEnd gran renderEndMins currentMins slots =
     (if currentMins < renderEndMins
      then timeSlotsLoop viewStart viewEnd gran renderEndMins (currentMins + gran)
             (slots @ [(currentMins, currentMins \<ge> viewStart \<and> currentMins < viewEnd)])
      else Some slots)"

definition get_timeSlotsView :: "scheduler \<Rightarrow> ((int \<times> bool) list \<times> scheduler) option" where
  \<comment> \<open>\<open>None\<close>: the \<^verbatim>\<open>while\<close> loop of the getter does not return\<close>
  "get_timeSlotsView s =
     (case priv_timeSlotsView s of
        Some v \<Rightarrow> Some (v, s)
      | None \<Rightarrow>
          (let renderStartMins = viewStartTimeMins s - timeViewRenderOffMins s;
               renderEndMins = viewEndTimeMins s + timeViewRenderOffMins s
           in case timeSlotsLoop (viewStartTimeMins s) (viewEndTimeMins s)
                     (timeViewGranularityMins s) renderEndMins renderStartMins [] of
                None \<Rightarrow> None
              | Some v \<Rightarrow> Some (v, s\<lparr> priv_timeSlotsView := Some v \<rparr>)))"

text \<open>
  One rendered cell of a day column: the slot minute, the item found there and the row
  span (\<open>None\<close> for the \<^verbatim>\<open>undefined\<close> of an empty cell).
\<close>

record cell =
  cellMins :: int
  cellItem :: "schedulingItem option"
  cellRowSpan :: "int option"

text \<open>
  The \<^verbatim>\<open>for\<close> loop of \<^verbatim>\<open>renderTimeCells\<close>. Reading \<^verbatim>\<open>this.timeSlotsView[i]\<close> at a negative
  index gives \<^verbatim>\<open>undefined\<close>, whose destructuring throws a \<^verbatim>\<open>TypeError\<close>.
  \<^verbatim>\<open>Math.floor(a / b)\<close> is \<open>a div b\<close> for a granularity \<open>b > 0\<close>, the only one the class
  can hold. \<open>None\<close>: the loop does not return.
\<close>

partial_function (option) renderTimeCellsLoop ::
  "int \<Rightarrow> schedulingItem list option \<Rightarrow> (int \<times> bool) list \<Rightarrow> int \<Rightarrow> cell list
     \<Rightarrow> (error + cell list) option" where
  "renderTimeCellsLoop gran thisDayItems slots i toRender =
     (if i < int (length slots)
      then (if i < 0 then Some (Inl TypeError)
            else (let slotMins = fst (slots ! nat i);
                      inView = snd (slots ! nat i);
                      foundItem = (if inView
                                   then (case thisDayItems of
                                           None \<Rightarrow> None
                                         | Some its \<Rightarrow> find (\<lambda>item. startTimeMins item = slotMins) its)
                                   else None)
                  in case foundItem of
                       Some item \<Rightarrow>
                         (let rowSpan = durationMins item div gran;
                              i2 = i + (rowSpan - 1)
                          in renderTimeCellsLoop gran thisDayItems slots (i2 + 1)
                               (toRender @ [\<lparr> cellMins = slotMins, cellItem = Some item,
                                               cellRowSpan = Some rowSpan \<rparr>]))
                     | None \<Rightarrow>
                         renderTimeCellsLoop gran thisDayItems slots (i + 1)
                           (toRender @ [\<lparr> cellMins = slotMins, cellItem = None,
                                           cellRowSpan = None \<rparr>])))
      else Some (Inr toRender))"

definition renderTimeCells :: "date \<Rightarrow> scheduler \<Rightarrow> ((error + cell list) \<times> scheduler) option" where
  \<comment> \<open>the getter \<^verbatim>\<open>this.timeSlotsView\<close> is read at every step of the loop and returns the
      cached array after its first call\<close>
  "renderTimeCells date s =
     (let thisDayItems = calculateTheDaysItems date s
      in case get_timeSlotsView s of
           None \<Rightarrow> None
         | Some (slots, s1) \<Rightarrow>
             (case renderTimeCellsLoop (timeViewGranularityMins s1) thisDayItems slots 0 [] of
                None \<Rightarrow> None
              | Some r \<Rightarrow> Some (r, s1)))"

subsection \<open>The transaction bracket\<close>

text \<open>
  \<^verbatim>\<open>beginChanges\<close> and \<^verbatim>\<open>endChanges\<close> are called by the showcase
  (\<^verbatim>\<open>#loadSchedulingItems\<close> and \<^verbatim>\<open>btnAddItem\<close> of \<^verbatim>\<open>CaseScheduler\<close>) on a later revision of
  the class; \<^verbatim>\<open>scheduler.js\<close> does not define them. The store with a bracket extends the
  scheduler by the depth counter and by a count of the flushes performed so far.
\<close>

record txScheduler =
  sched :: scheduler
  changeDepth :: nat
  flushCount :: nat

definition flush :: "date \<Rightarrow> txScheduler \<Rightarrow> txScheduler" where
  \<comment> \<open>Modelled from the spec: the cache invalidation and window recomputation that the
      bracket defers (missing from the source: \<^verbatim>\<open>endChanges\<close>). The recomputation is
      \<^verbatim>\<open>#updateViewProperties\<close> of the source, which clears the date caches and derives the
      time bounds.\<close>
  "flush now t = t\<lparr> sched := updateViewProperties now (sched t),
                    flushCount := flushCount t + 1 \<rparr>"

definition beginChanges :: "txScheduler \<Rightarrow> txScheduler" where
  \<comment> \<open>Modelled from the spec: missing method \<^verbatim>\<open>beginChanges\<close>; nested calls increment a
      depth counter.\<close>
  "beginChanges t = t\<lparr> changeDepth := changeDepth t + 1 \<rparr>"

definition endChanges :: "date \<Rightarrow> txScheduler \<Rightarrow> txScheduler" where
  \<comment> \<open>Modelled from the spec: missing method \<^verbatim>\<open>endChanges\<close>; the counter is decremented
      and the outermost call flushes. A call with no open bracket does nothing.\<close>
  "endChanges now t =
     (if changeDepth t = 0 then t
      else (let t1 = t\<lparr> changeDepth := changeDepth t - 1 \<rparr>
            in if changeDepth t1 = 0 then flush now t1 else t1))"

definition txAddItem :: "itemSpec \<Rightarrow> date \<Rightarrow> txScheduler \<Rightarrow> (error + schedulingItem) \<times> txScheduler" where
  \<comment> \<open>Modelled from the spec: \<^verbatim>\<open>addItem\<close> of the revision with the bracket (missing from the
      source). The item is constructed and stored as \<^verbatim>\<open>addItem\<close> of the source does;
      the recomputation runs at once outside a bracket and is deferred inside one.\<close>
  "txAddItem spec now t =
     (let s0 = (sched t)\<lparr> seed := seed (sched t) + 1 \<rparr>
      in case SchedulingItem (seed (sched t) + 1) spec of
           Inl e \<Rightarrow> (Inl e, t\<lparr> sched := s0 \<rparr>)
         | Inr item \<Rightarrow>
             (let t1 = t\<lparr> sched := insertItem item s0 \<rparr>
              in (Inr item, if changeDepth t = 0 then flush now t1 else t1)))"

text \<open>
  What a caller does with the store: add an item, or open a bracket around further
  changes as \<^verbatim>\<open>#loadSchedulingItems\<close> does,
  \<^verbatim>\<open>beginChanges(); try { \<dots> } finally { endChanges(); }\<close>.
  Running a change returns the error that escaped, if any, and the store.
\<close>

datatype change = AddItem itemSpec | Changes "change list"

fun runChange :: "date \<Rightarrow> change \<Rightarrow> txScheduler \<Rightarrow> error option \<times> txScheduler"
  and runChanges :: "date \<Rightarrow> change list \<Rightarrow> txScheduler \<Rightarrow> error option \<times> txScheduler" where
  "runChange now (AddItem spec) t =
     (case txAddItem spec now t of
        (Inl e, t1) \<Rightarrow> (Some e, t1)
      | (Inr item, t1) \<Rightarrow> (None, t1))"
| "runChange now (Changes body) t =
     (let (r, t1) = runChanges now body (beginChanges t)
      in (r, endChanges now t1))"
| "runChanges now [] t = (None, t)"
| "runChanges now (c # cs) t =
     (case runChange now c t of
        (Some e, t1) \<Rightarrow> (Some e, t1)
      | (None, t1) \<Rightarrow> runChanges now cs t1)"

subsection \<open>What the specification says, for comparison with the code\<close>

definition spec_viewStartDate :: "date \<Rightarrow> int \<Rightarrow> date" where
  \<comment> \<open>the week alignment in the words of the specification:
      \<open>effectiveStartDate - ((dayOfWeek(effectiveStartDate) - viewStartDay + 7) mod 7)\<close> days,
      truncated to midnight\<close>
  "spec_viewStartDate effectiveStartDate startDay =
     setHours0 (effectiveStartDate
                 - ((getDay effectiveStartDate - startDay + 7) mod 7) * 86400000)"

definition spec_windowItems :: "date \<Rightarrow> scheduler \<Rightarrow> schedulingItem list" where
  \<comment> \<open>the items whose day falls in \<open>[viewStartDate, viewStartDate + viewNumDays)\<close>\<close>
  "spec_windowItems viewStart s =
     filter (\<lambda>item. calendarDay viewStart \<le> calendarDay (day item)
                    \<and> calendarDay (day item) < calendarDay viewStart + viewNumDays s)
       (concat (map items (schedulingItemsByDay s)))"

definition spec_viewStartTimeMins :: "date \<Rightarrow> scheduler \<Rightarrow> int" where
  "spec_viewStartTimeMins viewStart s =
     (let w = spec_windowItems viewStart s
      in if w = [] then 540 else Min (set (map startTimeMins w)))"

definition spec_viewEndTimeMins :: "date \<Rightarrow> scheduler \<Rightarrow> int" where
  "spec_viewEndTimeMins viewStart s =
     (let w = spec_windowItems viewStart s
      in if w = [] then 1020 else Max (set (map endTimeMins w)))"

subsection \<open>Well-formed view start\<close>

definition viewStartAligned :: "scheduler \<Rightarrow> bool" where
  \<comment> \<open>what every cached view start date satisfies when the getter or the setter stored it
      under the current \<open>viewStartDay\<close>: it is a midnight of weekday \<open>viewStartDay\<close>\<close>
  "viewStartAligned s =
     (0 \<le> viewStartDay s \<and> viewStartDay s < 7 \<and>
      (case priv_viewStartDate s of
         None \<Rightarrow> True
       | Some d \<Rightarrow> getDay d = viewStartDay s \<and> setHours0 d = d))"

subsection \<open>Values used in the examples\<close>

definition plainSpec :: "date \<Rightarrow> int \<Rightarrow> int \<Rightarrow> itemSpec" where
  \<comment> \<open>the object literal \<^verbatim>\<open>{ caption: null, day, startTimeMins, durationMins, data: {} }\<close>,
      the shape the setter \<^verbatim>\<open>schedulingItemsByDay\<close> of the class passes to \<^verbatim>\<open>addItem\<close>\<close>
  "plainSpec d sta dur =
     \<lparr> spec_caption = JNull, spec_day = JDate d, spec_startTimeMins = JNum sta,
       spec_data = JObj, spec_durationMins = JNum dur \<rparr>"

definition itemA :: schedulingItem where
  "itemA = \<lparr> itemId = 1, day = 1734912000000, caption = JNull, startTimeMins = 540,
             durationMins = 30, data = JObj \<rparr>"

definition itemB :: schedulingItem where
  "itemB = \<lparr> itemId = 2, day = 1734912000000, caption = JNull, startTimeMins = 600,
             durationMins = 30, data = JObj \<rparr>"

definition itemC :: schedulingItem where
  "itemC = \<lparr> itemId = 3, day = 1734912000000, caption = JNull, startTimeMins = 660,
             durationMins = 30, data = JObj \<rparr>"

definition newStore :: "date \<Rightarrow> txScheduler" where
  \<comment> \<open>a new scheduler with no open bracket, used in the examples\<close>
  "newStore now = \<lparr> sched = constructor now 0, changeDepth = 0, flushCount = 0 \<rparr>"

subsection \<open>Notions used to state the store invariant\<close>

definition lookupDay :: "date \<Rightarrow> dayBucket list \<Rightarrow> schedulingItem list option" where
  \<comment> \<open>\<^verbatim>\<open>calculateTheDaysItems\<close> on the bucket list alone\<close>
  "lookupDay d bs = map_option items (find (\<lambda>b. calendarDay (bucketDay b) = calendarDay d) bs)"

definition newBuckets :: "schedulingItem \<Rightarrow> dayBucket list \<Rightarrow> dayBucket list" where
  \<comment> \<open>the bucket list of \<^verbatim>\<open>addItem\<close> before the item is pushed\<close>
  "newBuckets item bs =
     (case lookupDay (day item) bs of
        Some xs \<Rightarrow> bs
      | None \<Rightarrow> sort_key bucketDay (bs @ [\<lparr> bucketDay = day item, items = [] \<rparr>]))"

definition itemsOfDay :: "date \<Rightarrow> schedulingItem list \<Rightarrow> schedulingItem list option" where
  \<comment> \<open>the items of a calendar date among the items added so far, in the order of their
      addition; \<open>None\<close> when there is none\<close>
  "itemsOfDay d added =
     (let xs = filter (\<lambda>item. calendarDay (day item) = calendarDay d) added
      in if xs = [] then None else Some xs)"

definition storeConsistent :: "dayBucket list \<Rightarrow> schedulingItem list \<Rightarrow> bool" where
  "storeConsistent bs added =
     (sorted (map bucketDay bs) \<and> distinct (map (calendarDay \<circ> bucketDay) bs)
      \<and> (\<forall>d. lookupDay d bs = itemsOfDay d added))"

subsection \<open>Notions used to describe the placement pass\<close>

definition foundAt :: "schedulingItem list option \<Rightarrow> (int \<times> bool) list \<Rightarrow> int \<Rightarrow> schedulingItem option" where
  \<comment> \<open>\<^verbatim>\<open>foundItem\<close> of the loop body at slot index \<open>i\<close>\<close>
  "foundAt thisDayItems slots i =
     (if snd (slots ! nat i)
      then (case thisDayItems of
              None \<Rightarrow> None
            | Some its \<Rightarrow> find (\<lambda>item. startTimeMins item = fst (slots ! nat i)) its)
      else None)"

definition nextIndex :: "int \<Rightarrow> schedulingItem list option \<Rightarrow> (int \<times> bool) list \<Rightarrow> int \<Rightarrow> int" where
  \<comment> \<open>the index the loop continues with after the step at index \<open>i\<close>:
      \<^verbatim>\<open>i += rowSpan - 1\<close> when an item was found, then \<^verbatim>\<open>i++\<close>\<close>
  "nextIndex gran thisDayItems slots i =
     (case foundAt thisDayItems slots i of
        None \<Rightarrow> i + 1
      | Some item \<Rightarrow> i + (durationMins item div gran - 1) + 1)"

definition cellAt :: "int \<Rightarrow> schedulingItem list option \<Rightarrow> (int \<times> bool) list \<Rightarrow> int \<Rightarrow> cell" where
  \<comment> \<open>the cell the step at index \<open>i\<close> pushes\<close>
  "cellAt gran thisDayItems slots i =
     (case foundAt thisDayItems slots i of
        None \<Rightarrow> \<lparr> cellMins = fst (slots ! nat i), cellItem = None, cellRowSpan = None \<rparr>
      | Some item \<Rightarrow> \<lparr> cellMins = fst (slots ! nat i), cellItem = Some item,
                       cellRowSpan = Some (durationMins item div gran) \<rparr>)"

definition dayItems :: "schedulingItem list option \<Rightarrow> schedulingItem list" where
  "dayItems thisDayItems = (case thisDayItems of None \<Rightarrow> [] | Some its \<Rightarrow> its)"

definition rows :: "cell \<Rightarrow> int" where
  \<comment> \<open>the slot positions a cell takes: its row span, one for an empty cell\<close>
  "rows c = (case cellRowSpan c of None \<Rightarrow> 1 | Some k \<Rightarrow> k)"

fun tiles :: "(int \<times> bool) list \<Rightarrow> int \<Rightarrow> cell list \<Rightarrow> bool" where
  \<comment> \<open>the cells cover the axis from index \<open>i\<close> on: each cell sits at the first position
      not yet covered, is of that slot's minute and takes at least one position, and the
      cells end when the axis is used up\<close>
  "tiles slots i [] = (int (length slots) \<le> i)"
| "tiles slots i (c # cs) =
     (0 \<le> i \<and> i < int (length slots) \<and> cellMins c = fst (slots ! nat i) \<and> 1 \<le> rows c
      \<and> tiles slots (i + rows c) cs)"

subsection \<open>The items a sequence of calls is to create\<close>

definition expectedItem :: "nat \<Rightarrow> itemSpec \<Rightarrow> schedulingItem option" where
  \<comment> \<open>the item a well-typed spec describes, under the id \<open>n\<close>: the day is a \<^verbatim>\<open>Date\<close>, the
      start and the duration are numbers, the caption is \<^verbatim>\<open>null\<close>, a non-empty string or a
      function, and the data is an object; \<open>None\<close> for any other spec\<close>
  "expectedItem n spec =
     (case (spec_day spec, spec_startTimeMins spec, spec_durationMins spec) of
        (JDate d, JNum sta, JNum dur) \<Rightarrow>
          (if (spec_caption spec = JNull \<or> isNonEmptyString (spec_caption spec)
                \<or> isFunction (spec_caption spec)) \<and> isObject (spec_data spec)
           then Some \<lparr> itemId = n, day = d, caption = spec_caption spec, startTimeMins = sta,
                        durationMins = dur, data = spec_data spec \<rparr>
           else None)
      | _ \<Rightarrow> None)"

fun expectedItems :: "nat \<Rightarrow> itemSpec list \<Rightarrow> schedulingItem list" where
  \<comment> \<open>the items of the well-typed specs of a sequence of calls, in the order of the calls;
      the \<open>k\<close>-th call draws the id \<open>n + k\<close> from the class-wide counter that stood at \<open>n\<close>\<close>
  "expectedItems n [] = []"
| "expectedItems n (spec # specs) =
     (case expectedItem (n + 1) spec of
        None \<Rightarrow> expectedItems (n + 1) specs
      | Some item \<Rightarrow> item # expectedItems (n + 1) specs)"

text \<open>The two loops are evaluated by their recursion equations.\<close>

declare timeSlotsLoop.simps [code]
declare renderTimeCellsLoop.simps [code]

section \<open>Date arithmetic\<close>

lemma calendarDay_add_days: "calendarDay (d + k * 86400000) = calendarDay d + k"
  by (simp add: calendarDay_def)

lemma calendarDay_setHours0: "calendarDay (setHours0 d) = calendarDay d"
proof -
  have "setHours0 d = (d div 86400000) * 86400000"
    by (simp add: setHours0_def minus_mod_eq_div_mult)
  then show ?thesis by (simp add: calendarDay_def)
qed

lemma setHours0_mod: "setHours0 d mod 86400000 = 0"
  by (simp add: setHours0_def minus_mod_eq_div_mult)

lemma setHours0_add_days: "setHours0 (d + k * 86400000) = setHours0 d + k * 86400000"
  by (simp add: setHours0_def)

lemma setHours0_le: "setHours0 d \<le> d"
  by (simp add: setHours0_def)

lemma setHours0_gt: "d < setHours0 d + 86400000"
proof -
  have "d mod 86400000 < 86400000" by simp
  then show ?thesis unfolding setHours0_def by linarith
qed

lemma getDay_setHours0: "getDay (setHours0 d) = getDay d"
  by (simp add: getDay_def calendarDay_setHours0)

lemma getDay_range: "0 \<le> getDay d \<and> getDay d < 7"
  by (simp add: getDay_def)

lemma setDate_getDate: "setDate d (getDate d + k) = d + k * 86400000"
  by (simp add: setDate_def)

lemma calculateStartDate_eq:
  "calculateStartDate s e = setHours0 e + (viewStartDay s - getDay e) * 86400000"
proof -
  have "getDate (setHours0 e) - getDay (setHours0 e) + viewStartDay s
        = getDate (setHours0 e) + (viewStartDay s - getDay e)"
    by (simp add: getDay_setHours0)
  then show ?thesis
    unfolding calculateStartDate_def Let_def by (simp only: setDate_getDate)
qed

lemma getDay_calculateStartDate:
  assumes "0 \<le> viewStartDay s" "viewStartDay s < 7"
  shows "getDay (calculateStartDate s e) = viewStartDay s"
proof -
  have "calendarDay (calculateStartDate s e) = calendarDay e + (viewStartDay s - getDay e)"
    unfolding calculateStartDate_eq calendarDay_add_days calendarDay_setHours0 ..
  then have "getDay (calculateStartDate s e)
             = (calendarDay e + (viewStartDay s - (calendarDay e + 4) mod 7) + 4) mod 7"
    by (simp only: getDay_def)
  also have "\<dots> = (7 * ((calendarDay e + 4) div 7) + viewStartDay s) mod 7"
    by (simp add: minus_mod_eq_mult_div [symmetric] algebra_simps)
  also have "\<dots> = viewStartDay s mod 7"
    by simp
  finally show ?thesis using assms by simp
qed

lemma setHours0_calculateStartDate: "setHours0 (calculateStartDate s e) = calculateStartDate s e"
  unfolding calculateStartDate_eq setHours0_add_days
  by (simp add: setHours0_def minus_mod_eq_div_mult)


section \<open>Week alignment of the view start date\<close>

lemma get_viewStartDate_None:
  "priv_viewStartDate s = None \<Longrightarrow>
   fst (get_viewStartDate now s) = calculateStartDate s (fst (get_effectiveStartDate now s))"
  by (simp add: get_viewStartDate_def get_effectiveStartDate_def calculateStartDate_def Let_def
           split: option.splits prod.splits)

text \<open>
  Claim C1, as the code has it. \<^verbatim>\<open>calculateStartDate\<close> moves the effective start date,
  truncated to midnight, by \<open>viewStartDay - dayOfWeek\<close> days: to the day of weekday
  \<open>viewStartDay\<close> in the Sunday-to-Saturday week of the effective start date. The derived
  date has weekday \<open>viewStartDay\<close>; it is not after the effective start date exactly when
  \<open>viewStartDay \<le> dayOfWeek(effectiveStartDate)\<close>, and then it is the date of the
  specification's formula; otherwise it is that date plus seven days.
\<close>

theorem viewStartDate_derived:
  assumes "priv_viewStartDate s = None" "0 \<le> viewStartDay s" "viewStartDay s < 7"
  shows "(let e = fst (get_effectiveStartDate now s); v = fst (get_viewStartDate now s) in
           v = setHours0 e + (viewStartDay s - getDay e) * 86400000
         \<and> getDay v = viewStartDay s
         \<and> ((v \<le> e) = (viewStartDay s \<le> getDay e))
         \<and> (if viewStartDay s \<le> getDay e then v = spec_viewStartDate e (viewStartDay s)
             else v = spec_viewStartDate e (viewStartDay s) + 7 * 86400000))"
proof -
  define e where "e = fst (get_effectiveStartDate now s)"
  define v where "v = fst (get_viewStartDate now s)"
  have v: "v = calculateStartDate s e"
    unfolding v_def e_def using assms(1) by (rule get_viewStartDate_None)
  have v1: "v = setHours0 e + (viewStartDay s - getDay e) * 86400000"
    unfolding v by (rule calculateStartDate_eq)
  have v2: "getDay v = viewStartDay s"
    unfolding v using assms(2,3) by (rule getDay_calculateStartDate)
  have r: "0 \<le> getDay e" "getDay e < 7" using getDay_range [of e] by simp_all
  have v3: "(v \<le> e) = (viewStartDay s \<le> getDay e)"
  proof (cases "viewStartDay s \<le> getDay e")
    case True
    then have "(viewStartDay s - getDay e) * 86400000 \<le> 0"
      by (simp add: mult_le_0_iff)
    with setHours0_le [of e] True show ?thesis unfolding v1 by linarith
  next
    case False
    then have "1 \<le> viewStartDay s - getDay e" by simp
    then have "1 * 86400000 \<le> (viewStartDay s - getDay e) * (86400000::int)"
      by (rule mult_right_mono) simp
    with setHours0_gt [of e] False show ?thesis unfolding v1 by linarith
  qed
  have sp: "spec_viewStartDate e (viewStartDay s)
            = setHours0 e - ((getDay e - viewStartDay s + 7) mod 7) * 86400000"
    unfolding spec_viewStartDate_def
    using setHours0_add_days [of e "- ((getDay e - viewStartDay s + 7) mod 7)"] by simp
  have v4: "if viewStartDay s \<le> getDay e then v = spec_viewStartDate e (viewStartDay s)
             else v = spec_viewStartDate e (viewStartDay s) + 7 * 86400000"
  proof (cases "viewStartDay s \<le> getDay e")
    case True
    then have "(getDay e - viewStartDay s + 7) mod 7 = getDay e - viewStartDay s"
      using r assms(2) by (simp add: mod_pos_pos_trivial)
    then show ?thesis using True unfolding sp v1 by (simp add: algebra_simps)
  next
    case False
    have "(getDay e - viewStartDay s + 7) mod 7 = getDay e - viewStartDay s + 7"
      by (rule mod_pos_pos_trivial) (use r assms(3) False in linarith)+
    then show ?thesis using False unfolding sp v1 by (simp add: algebra_simps)
  qed
  show ?thesis
    unfolding Let_def e_def [symmetric] v_def [symmetric]
    using v1 v2 v3 v4 by blast
qed


text \<open>The theorem at an empty scheduler made on Sunday 2024-12-29 at 10:00.\<close>

theorem viewStartDate_derived_witness:
  "(let e = fst (get_effectiveStartDate 1735466400000 (constructor 1735466400000 0));
        v = fst (get_viewStartDate 1735466400000 (constructor 1735466400000 0)) in
           v = setHours0 e + (viewStartDay (constructor 1735466400000 0) - getDay e) * 86400000
         \<and> getDay v = viewStartDay (constructor 1735466400000 0)
         \<and> ((v \<le> e) = (viewStartDay (constructor 1735466400000 0) \<le> getDay e))
         \<and> (if viewStartDay (constructor 1735466400000 0) \<le> getDay e
             then v = spec_viewStartDate e (viewStartDay (constructor 1735466400000 0))
             else v = spec_viewStartDate e (viewStartDay (constructor 1735466400000 0)) + 7 * 86400000))"
proof -
  have h1: "priv_viewStartDate (constructor 1735466400000 0) = None" by code_simp
  have h2: "0 \<le> viewStartDay (constructor 1735466400000 0)" by code_simp
  have h3: "viewStartDay (constructor 1735466400000 0) < 7" by code_simp
  show ?thesis by (rule viewStartDate_derived [OF h1 h2 h3])
qed

text \<open>
  Claim C1 as stated fails: after an item is added for Sunday 2024-12-29 to a new scheduler
  (\<open>viewStartDay\<close> is Monday), the effective start date is 2024-12-29, the derived view
  start date is Monday 2024-12-30, after it, and the formula of the specification gives
  Monday 2024-12-23.
\<close>

theorem viewStartDate_after_effectiveStartDate:
  "fst (get_effectiveStartDate 0 (snd (addItem
          \<lparr> spec_caption = JNull, spec_day = JDate 1735430400000, spec_startTimeMins = JNum 540,
            spec_data = JObj, spec_durationMins = JNum 60 \<rparr> 0 (constructor 0 0)))) = 1735430400000
   \<and> fst (get_viewStartDate 0 (snd (addItem
          \<lparr> spec_caption = JNull, spec_day = JDate 1735430400000, spec_startTimeMins = JNum 540,
            spec_data = JObj, spec_durationMins = JNum 60 \<rparr> 0 (constructor 0 0)))) = 1735516800000
   \<and> spec_viewStartDate 1735430400000 1 = 1734912000000"
  by code_simp

section \<open>Pagination\<close>

lemma get_effectiveStartDate_fields:
  "viewStartDay (snd (get_effectiveStartDate now s)) = viewStartDay s"
  "schedulingItemsByDay (snd (get_effectiveStartDate now s)) = schedulingItemsByDay s"
  by (simp_all add: get_effectiveStartDate_def Let_def split: option.splits)

lemma get_viewStartDate_cached:
  "priv_viewStartDate s = Some d \<Longrightarrow> get_viewStartDate now s = (d, s)"
  by (simp add: get_viewStartDate_def)

lemma get_viewStartDate_fills:
  "priv_viewStartDate (snd (get_viewStartDate now s)) = Some (fst (get_viewStartDate now s))"
  by (simp add: get_viewStartDate_def Let_def split: option.splits prod.splits)

lemma get_viewStartDate_fields:
  "viewStartDay (snd (get_viewStartDate now s)) = viewStartDay s"
  "schedulingItemsByDay (snd (get_viewStartDate now s)) = schedulingItemsByDay s"
  by (simp_all add: get_viewStartDate_def get_effectiveStartDate_def Let_def
        split: option.splits prod.splits)

lemma get_viewStartDate_aligned:
  assumes "viewStartAligned s"
  shows "getDay (fst (get_viewStartDate now s)) = viewStartDay s"
    and "setHours0 (fst (get_viewStartDate now s)) = fst (get_viewStartDate now s)"
proof -
  show "getDay (fst (get_viewStartDate now s)) = viewStartDay s"
  proof (cases "priv_viewStartDate s")
    case None
    then show ?thesis
      using assms by (simp add: get_viewStartDate_None getDay_calculateStartDate viewStartAligned_def)
  next
    case (Some d)
    then show ?thesis using assms by (simp add: get_viewStartDate_cached viewStartAligned_def)
  qed
  show "setHours0 (fst (get_viewStartDate now s)) = fst (get_viewStartDate now s)"
  proof (cases "priv_viewStartDate s")
    case None
    then show ?thesis
      by (simp add: get_viewStartDate_None setHours0_calculateStartDate)
  next
    case (Some d)
    then show ?thesis using assms by (simp add: get_viewStartDate_cached viewStartAligned_def)
  qed
qed

lemma getDay_add_weeks: "getDay (d + 7 * c * 86400000) = getDay d"
proof -
  have "calendarDay d + 7 * c + 4 = (calendarDay d + 4) + 7 * c" by simp
  then show ?thesis by (simp only: getDay_def calendarDay_add_days mod_mult_self2)
qed

lemma changeViewPage_eq:
  assumes "viewStartAligned s"
  shows "changeViewPage count now s =
           Inr ((snd (get_viewStartDate now s))
                  \<lparr> priv_viewStartDate := Some (fst (get_viewStartDate now s) + 7 * count * 86400000) \<rparr>)"
proof -
  define v where "v = fst (get_viewStartDate now s)"
  define s1 where "s1 = snd (get_viewStartDate now s)"
  have g1: "get_viewStartDate now s = (v, s1)" by (simp add: v_def s1_def)
  have "priv_viewStartDate s1 = Some v"
    unfolding s1_def v_def by (rule get_viewStartDate_fills)
  then have g2: "get_viewStartDate now s1 = (v, s1)" by (rule get_viewStartDate_cached)
  have d: "setDate v (getDate v + 7 * count) = v + 7 * count * 86400000"
    by (rule setDate_getDate)
  have day: "getDay (v + 7 * count * 86400000) = viewStartDay s1"
    unfolding getDay_add_weeks v_def s1_def get_viewStartDate_fields
    using assms by (rule get_viewStartDate_aligned)
  have "setHours0 v = v" unfolding v_def using assms by (rule get_viewStartDate_aligned)
  then have mid: "setHours0 (v + 7 * count * 86400000) = v + 7 * count * 86400000"
    using setHours0_add_days [of v "7 * count"] by simp
  have "changeViewPage count now s = set_viewStartDate (v + 7 * count * 86400000) s1"
    unfolding changeViewPage_def g1 by (simp only: Let_def prod.case g2 d)
  also have "\<dots> = Inr (s1\<lparr> priv_viewStartDate := Some (v + 7 * count * 86400000) \<rparr>)"
    unfolding set_viewStartDate_def Let_def mid using day by simp
  finally show ?thesis unfolding v_def s1_def .
qed

lemma changeViewPage_result:
  assumes "viewStartAligned s"
  obtains s1 where "changeViewPage count now s = Inr s1" "viewStartAligned s1"
    "\<And>now1. fst (get_viewStartDate now1 s1) = fst (get_viewStartDate now s) + 7 * count * 86400000"
proof -
  define v where "v = fst (get_viewStartDate now s)"
  define w where "w = v + 7 * count * 86400000"
  define s1 where "s1 = (snd (get_viewStartDate now s)) \<lparr> priv_viewStartDate := Some w \<rparr>"
  have a: "changeViewPage count now s = Inr s1"
    unfolding s1_def w_def v_def using assms by (rule changeViewPage_eq)
  have v: "getDay v = viewStartDay s" "setHours0 v = v"
    unfolding v_def using assms by (rule get_viewStartDate_aligned)+
  have w1: "getDay w = viewStartDay s"
    unfolding w_def getDay_add_weeks by (rule v)
  have w2: "setHours0 w = w"
    unfolding w_def setHours0_add_days v(2) ..
  have b: "viewStartAligned s1"
    using assms w1 w2 by (simp add: viewStartAligned_def s1_def get_viewStartDate_fields)
  have c: "fst (get_viewStartDate now1 s1) = w" for now1
    by (simp add: s1_def get_viewStartDate_cached)
  show thesis using that [OF a b] c unfolding w_def v_def by blast
qed

lemma changeViewPage_aligned:
  assumes "viewStartAligned s"
  shows "(\<exists>s1. changeViewPage count now s = Inr s1
            \<and> fst (get_viewStartDate now1 s1)
                = fst (get_viewStartDate now s) + 7 * count * 86400000)
       \<and> (\<exists>s1 s2. changeViewPage 1 now s = Inr s1 \<and> changeViewPage (- 1) now1 s1 = Inr s2
            \<and> fst (get_viewStartDate now2 s2) = fst (get_viewStartDate now s))
       \<and> (\<exists>s0. changeViewPage 0 now s = Inr s0
            \<and> fst (get_viewStartDate now1 s0) = fst (get_viewStartDate now s))"
proof (intro conjI)
  show "\<exists>s1. changeViewPage count now s = Inr s1
            \<and> fst (get_viewStartDate now1 s1)
                = fst (get_viewStartDate now s) + 7 * count * 86400000"
    using changeViewPage_result [OF assms, of count now] by metis
  show "\<exists>s1 s2. changeViewPage 1 now s = Inr s1 \<and> changeViewPage (- 1) now1 s1 = Inr s2
            \<and> fst (get_viewStartDate now2 s2) = fst (get_viewStartDate now s)"
  proof -
    obtain s1 where s1: "changeViewPage 1 now s = Inr s1" "viewStartAligned s1"
      "\<And>n. fst (get_viewStartDate n s1) = fst (get_viewStartDate now s) + 7 * 1 * 86400000"
      using changeViewPage_result [OF assms, of 1 now] by blast
    obtain s2 where s2: "changeViewPage (- 1) now1 s1 = Inr s2"
      "\<And>n. fst (get_viewStartDate n s2) = fst (get_viewStartDate now1 s1) + 7 * (- 1) * 86400000"
      using changeViewPage_result [OF s1(2), of "- 1" now1] by blast
    have "fst (get_viewStartDate now2 s2) = fst (get_viewStartDate now s)"
      unfolding s2(2) s1(3) by simp
    with s1(1) s2(1) show ?thesis by blast
  qed
  show "\<exists>s0. changeViewPage 0 now s = Inr s0
            \<and> fst (get_viewStartDate now1 s0) = fst (get_viewStartDate now s)"
    using changeViewPage_result [OF assms, of 0 now] by (metis add.right_neutral mult_zero_left mult_zero_right)
qed


lemma viewStartAligned_get_viewStartDate:
  assumes "viewStartAligned s"
  shows "viewStartAligned (snd (get_viewStartDate now s))"
  using assms get_viewStartDate_aligned [OF assms, of now]
  by (simp add: viewStartAligned_def get_viewStartDate_fills get_viewStartDate_fields)

lemma viewStartAligned_calculateMaxEndTime:
  assumes "viewStartAligned s"
  shows "viewStartAligned (snd (calculateMaxEndTime now s))"
proof (cases "schedulingItemsByDay s")
  case Nil
  then show ?thesis using assms by (simp add: calculateMaxEndTime_def Let_def)
next
  case (Cons b bs)
  then have "snd (calculateMaxEndTime now s) = snd (get_viewStartDate now s)"
    by (simp add: calculateMaxEndTime_def Let_def split: prod.splits)
  then show ?thesis using viewStartAligned_get_viewStartDate [OF assms] by simp
qed

lemma viewStartAligned_updateViewProperties:
  assumes "0 \<le> viewStartDay s" "viewStartDay s < 7"
  shows "viewStartAligned (updateViewProperties now s)"
proof -
  define s2 where "s2 = s\<lparr> priv_effectiveStartDate := None, priv_viewStartDate := None,
       viewStartTimeMins := (case calculateMinStartTime
              (s\<lparr> priv_effectiveStartDate := None, priv_viewStartDate := None \<rparr>) of
              None \<Rightarrow> 9 * 60 | Some m \<Rightarrow> m) \<rparr>"
  have "viewStartAligned s2" using assms by (simp add: viewStartAligned_def s2_def)
  then have a: "viewStartAligned (snd (calculateMaxEndTime now s2))"
    by (rule viewStartAligned_calculateMaxEndTime)
  have "updateViewProperties now s
        = (snd (calculateMaxEndTime now s2))
            \<lparr> viewEndTimeMins := (case fst (calculateMaxEndTime now s2) of
                                    None \<Rightarrow> 17 * 60 | Some m \<Rightarrow> m) \<rparr>"
    by (simp add: updateViewProperties_def Let_def s2_def split: prod.splits)
  then show ?thesis using a by (simp add: viewStartAligned_def split: option.splits)
qed

lemma viewStartAligned_constructor: "viewStartAligned (constructor now0 seed0)"
  unfolding constructor_def by (rule viewStartAligned_updateViewProperties) simp_all

lemma viewStartAligned_addItem:
  assumes "viewStartAligned s"
  shows "viewStartAligned (snd (addItem spec now s))"
proof (cases "SchedulingItem (seed s + 1) spec")
  case (Inl e)
  then show ?thesis using assms
    by (simp add: addItem_def Let_def viewStartAligned_def split: option.splits)
next
  case (Inr item)
  have "viewStartDay (insertItem item (s\<lparr> seed := seed s + 1 \<rparr>)) = viewStartDay s"
    by (simp add: insertItem_def Let_def)
  then have "viewStartAligned (updateViewProperties now (insertItem item (s\<lparr> seed := seed s + 1 \<rparr>)))"
    using assms by (intro viewStartAligned_updateViewProperties) (simp_all add: viewStartAligned_def)
  then show ?thesis using Inr by (simp add: addItem_def Let_def)
qed

lemma changeViewPage_misaligned:
  assumes "priv_viewStartDate s = Some d" "getDay d \<noteq> viewStartDay s"
  shows "changeViewPage count now s
         = Inl (AvermentFailure ''Start Date should start on viewStartDay'')"
proof -
  have g: "get_viewStartDate now s = (d, s)" using assms(1) by (rule get_viewStartDate_cached)
  have d: "setDate d (getDate d + 7 * count) = d + 7 * count * 86400000"
    by (rule setDate_getDate)
  have "getDay (setHours0 (d + 7 * count * 86400000)) = getDay d"
    unfolding getDay_setHours0 getDay_add_weeks ..
  then have n: "getDay (setHours0 (d + 7 * count * 86400000)) \<noteq> viewStartDay s"
    using assms(2) by simp
  have "changeViewPage count now s = set_viewStartDate (d + 7 * count * 86400000) s"
    unfolding changeViewPage_def g by (simp only: Let_def prod.case g d)
  also have "\<dots> = Inl (AvermentFailure ''Start Date should start on viewStartDay'')"
    unfolding set_viewStartDate_def Let_def using n by simp
  finally show ?thesis .
qed

text \<open>
  Claim C8, as the code has it. Call a scheduler aligned when its cached view start date,
  if there is one, is a midnight of weekday \<open>viewStartDay\<close>. A new scheduler is aligned, and
  \<^verbatim>\<open>addItem\<close> and \<^verbatim>\<open>changeViewPage\<close> keep it so. In an aligned scheduler
  \<^verbatim>\<open>changeViewPage(count)\<close> succeeds and shifts the view start date by \<open>7 * count\<close> days;
  paging forward and then backward restores it, and \<^verbatim>\<open>changeViewPage(0)\<close> leaves it
  unchanged. When the cached date is of another weekday than \<open>viewStartDay\<close>, which the
  setter of \<open>viewStartDay\<close> brings about since it keeps the cache, \<^verbatim>\<open>changeViewPage\<close> throws
  at the guard of the setter of \<open>viewStartDate\<close> and the date stays as it was.
\<close>

theorem changeViewPage_shift:
  "viewStartAligned (constructor now0 seed0)
   \<and> (viewStartAligned s \<longrightarrow> viewStartAligned (snd (addItem spec now s)))
   \<and> (viewStartAligned s \<longrightarrow>
        (\<exists>s1. changeViewPage count now s = Inr s1 \<and> viewStartAligned s1
            \<and> fst (get_viewStartDate now1 s1)
                = fst (get_viewStartDate now s) + 7 * count * 86400000)
       \<and> (\<exists>s1 s2. changeViewPage 1 now s = Inr s1 \<and> changeViewPage (- 1) now1 s1 = Inr s2
            \<and> fst (get_viewStartDate now2 s2) = fst (get_viewStartDate now s))
       \<and> (\<exists>s0. changeViewPage 0 now s = Inr s0
            \<and> fst (get_viewStartDate now1 s0) = fst (get_viewStartDate now s)))
   \<and> (priv_viewStartDate s = Some d \<and> getDay d \<noteq> viewStartDay s \<longrightarrow>
        changeViewPage count now s
          = Inl (AvermentFailure ''Start Date should start on viewStartDay''))"
proof (intro conjI impI)
  show "viewStartAligned (constructor now0 seed0)" by (rule viewStartAligned_constructor)
next
  assume "viewStartAligned s"
  then show "viewStartAligned (snd (addItem spec now s))" by (rule viewStartAligned_addItem)
next
  assume a: "viewStartAligned s"
  show "\<exists>s1. changeViewPage count now s = Inr s1 \<and> viewStartAligned s1
            \<and> fst (get_viewStartDate now1 s1)
                = fst (get_viewStartDate now s) + 7 * count * 86400000"
    using changeViewPage_result [OF a, of count now] by metis
next
  assume a: "viewStartAligned s"
  show "\<exists>s1 s2. changeViewPage 1 now s = Inr s1 \<and> changeViewPage (- 1) now1 s1 = Inr s2
            \<and> fst (get_viewStartDate now2 s2) = fst (get_viewStartDate now s)"
    using changeViewPage_aligned [OF a, where now = now and ?now1.0 = now1 and ?now2.0 = now2]
    by blast
next
  assume a: "viewStartAligned s"
  show "\<exists>s0. changeViewPage 0 now s = Inr s0
            \<and> fst (get_viewStartDate now1 s0) = fst (get_viewStartDate now s)"
    using changeViewPage_aligned [OF a, where now = now and ?now1.0 = now1] by blast
next
  assume "priv_viewStartDate s = Some d \<and> getDay d \<noteq> viewStartDay s"
  then show "changeViewPage count now s
          = Inl (AvermentFailure ''Start Date should start on viewStartDay'')"
    using changeViewPage_misaligned by blast
qed

text \<open>
  The theorem at a new, empty scheduler made on Sunday 2024-12-29 at 10:00, after an
  \<^verbatim>\<open>addItem\<close>, and after \<open>viewStartDay\<close> was set to Sunday with the Monday 2024-12-30 cached.
\<close>

theorem changeViewPage_shift_witness:
  "(\<exists>s1. changeViewPage 2 1735466400000 (constructor 1735466400000 0) = Inr s1
            \<and> viewStartAligned s1
            \<and> fst (get_viewStartDate 1735466400000 s1)
                = fst (get_viewStartDate 1735466400000 (constructor 1735466400000 0))
                  + 7 * 2 * 86400000)
   \<and> (\<exists>s1 s2. changeViewPage 1 1735466400000 (constructor 1735466400000 0) = Inr s1
            \<and> changeViewPage (- 1) 1735466400000 s1 = Inr s2
            \<and> fst (get_viewStartDate 1735466400000 s2)
                = fst (get_viewStartDate 1735466400000 (constructor 1735466400000 0)))
   \<and> (\<exists>s0. changeViewPage 0 1735466400000 (constructor 1735466400000 0) = Inr s0
            \<and> fst (get_viewStartDate 1735466400000 s0)
                = fst (get_viewStartDate 1735466400000 (constructor 1735466400000 0)))
   \<and> viewStartAligned (snd (addItem (plainSpec 1735344000000 540 60) 1735466400000
                               (constructor 1735466400000 0)))
   \<and> changeViewPage 1 1735466400000
        ((snd (get_viewStartDate 1735466400000 (constructor 1735466400000 0)))
           \<lparr> viewStartDay := 0 \<rparr>)
       = Inl (AvermentFailure ''Start Date should start on viewStartDay'')"
proof -
  let ?s = "constructor 1735466400000 0"
  let ?t = "(snd (get_viewStartDate 1735466400000 ?s))\<lparr> viewStartDay := 0 \<rparr>"
  have h: "viewStartAligned ?s" by code_simp
  have k: "priv_viewStartDate ?t = Some 1735516800000
           \<and> getDay 1735516800000 \<noteq> viewStartDay ?t"
    by code_simp
  have c1: "(\<exists>s1. changeViewPage 2 1735466400000 ?s = Inr s1 \<and> viewStartAligned s1
            \<and> fst (get_viewStartDate 1735466400000 s1)
                = fst (get_viewStartDate 1735466400000 ?s) + 7 * 2 * 86400000)
       \<and> (\<exists>s1 s2. changeViewPage 1 1735466400000 ?s = Inr s1
            \<and> changeViewPage (- 1) 1735466400000 s1 = Inr s2
            \<and> fst (get_viewStartDate 1735466400000 s2) = fst (get_viewStartDate 1735466400000 ?s))
       \<and> (\<exists>s0. changeViewPage 0 1735466400000 ?s = Inr s0
            \<and> fst (get_viewStartDate 1735466400000 s0) = fst (get_viewStartDate 1735466400000 ?s))"
    by (rule mp [OF conjunct1 [OF conjunct2 [OF conjunct2 [OF changeViewPage_shift
          [where s = ?s and count = 2 and now = 1735466400000 and ?now1.0 = 1735466400000
             and ?now2.0 = 1735466400000]]]] h])
  have c2: "viewStartAligned (snd (addItem (plainSpec 1735344000000 540 60) 1735466400000 ?s))"
    by (rule mp [OF conjunct1 [OF conjunct2 [OF changeViewPage_shift
          [where s = ?s and spec = "plainSpec 1735344000000 540 60"
             and now = 1735466400000]]] h])
  have c3: "changeViewPage 1 1735466400000 ?t
              = Inl (AvermentFailure ''Start Date should start on viewStartDay'')"
    by (rule mp [OF conjunct2 [OF conjunct2 [OF conjunct2 [OF changeViewPage_shift
          [where s = ?t and count = 1 and now = 1735466400000
             and d = 1735516800000]]]] k])
  show ?thesis by (intro conjI conjunct1 [OF c1] conjunct1 [OF conjunct2 [OF c1]]
        conjunct2 [OF conjunct2 [OF c1]] c2 c3)
qed


text \<open>
  Claim C8 as stated fails: a new scheduler made on Sunday 2024-12-29 caches the view start
  date Monday 2024-12-30 when it is read; after \<^verbatim>\<open>viewStartDay = 0\<close>, which succeeds,
  \<^verbatim>\<open>changeViewPage(1)\<close> throws instead of shifting the date.
\<close>

theorem changeViewPage_fails_after_set_viewStartDay:
  "fst (get_viewStartDate 1735466400000 (constructor 1735466400000 0)) = 1735516800000
   \<and> set_viewStartDay 0 (snd (get_viewStartDate 1735466400000 (constructor 1735466400000 0)))
       = Inr ((snd (get_viewStartDate 1735466400000 (constructor 1735466400000 0)))
                \<lparr> viewStartDay := 0 \<rparr>)
   \<and> changeViewPage 1 1735466400000
        ((snd (get_viewStartDate 1735466400000 (constructor 1735466400000 0)))
           \<lparr> viewStartDay := 0 \<rparr>)
       = Inl (AvermentFailure ''Start Date should start on viewStartDay'')"
  by code_simp


section \<open>What the recomputation of the view properties leaves alone\<close>

lemma scheduler_caches_id:
  "s = s\<lparr> priv_effectiveStartDate := priv_effectiveStartDate s,
            priv_viewStartDate := priv_viewStartDate s \<rparr>"
  by simp

lemma get_effectiveStartDate_shape:
  "\<exists>a b. snd (get_effectiveStartDate now s)
           = s\<lparr> priv_effectiveStartDate := a, priv_viewStartDate := b \<rparr>"
proof (cases "priv_effectiveStartDate s")
  case None
  then show ?thesis by (simp add: get_effectiveStartDate_def Let_def) blast
next
  case (Some d)
  then have "snd (get_effectiveStartDate now s) = s" by (simp add: get_effectiveStartDate_def)
  then show ?thesis using scheduler_caches_id [of s] by metis
qed

lemma get_viewStartDate_shape:
  "\<exists>a b. snd (get_viewStartDate now s)
           = s\<lparr> priv_effectiveStartDate := a, priv_viewStartDate := b \<rparr>"
proof (cases "priv_viewStartDate s")
  case None
  obtain a b where e: "snd (get_effectiveStartDate now s)
           = s\<lparr> priv_effectiveStartDate := a, priv_viewStartDate := b \<rparr>"
    using get_effectiveStartDate_shape by blast
  have "snd (get_viewStartDate now s)
        = (snd (get_effectiveStartDate now s))
            \<lparr> priv_viewStartDate := Some (fst (get_viewStartDate now s)) \<rparr>"
    using None by (simp add: get_viewStartDate_def Let_def split: prod.splits)
  then have "snd (get_viewStartDate now s)
        = s\<lparr> priv_effectiveStartDate := a,
              priv_viewStartDate := Some (fst (get_viewStartDate now s)) \<rparr>"
    unfolding e by simp
  then show ?thesis by blast
next
  case (Some d)
  then have "snd (get_viewStartDate now s) = s" by (simp add: get_viewStartDate_def)
  then show ?thesis using scheduler_caches_id [of s] by metis
qed

lemma calculateMaxEndTime_shape:
  "\<exists>a b. snd (calculateMaxEndTime now s)
           = s\<lparr> priv_effectiveStartDate := a, priv_viewStartDate := b \<rparr>"
proof (cases "schedulingItemsByDay s")
  case Nil
  then have "snd (calculateMaxEndTime now s) = s"
    by (simp add: calculateMaxEndTime_def Let_def)
  then show ?thesis using scheduler_caches_id [of s] by metis
next
  case (Cons b bs)
  have "snd (calculateMaxEndTime now s) = snd (get_viewStartDate now s)"
    using Cons by (simp add: calculateMaxEndTime_def Let_def split: prod.splits)
  then show ?thesis using get_viewStartDate_shape by simp
qed

lemma updateViewProperties_shape:
  "\<exists>a b c d. updateViewProperties now s
           = s\<lparr> priv_effectiveStartDate := a, priv_viewStartDate := b,
                viewStartTimeMins := c, viewEndTimeMins := d \<rparr>"
proof -
  define s1 where "s1 = s\<lparr> priv_effectiveStartDate := None, priv_viewStartDate := None \<rparr>"
  define c where "c = (case calculateMinStartTime s1 of None \<Rightarrow> 9 * 60 | Some m \<Rightarrow> m)"
  define s2 where "s2 = s1\<lparr> viewStartTimeMins := c \<rparr>"
  define d where "d = (case fst (calculateMaxEndTime now s2) of
                                    None \<Rightarrow> 17 * 60 | Some m \<Rightarrow> m)"
  obtain a b where m: "snd (calculateMaxEndTime now s2)
           = s2\<lparr> priv_effectiveStartDate := a, priv_viewStartDate := b \<rparr>"
    using calculateMaxEndTime_shape by blast
  have "updateViewProperties now s = (snd (calculateMaxEndTime now s2))\<lparr> viewEndTimeMins := d \<rparr>"
    by (simp add: updateViewProperties_def Let_def s2_def s1_def c_def d_def split: prod.splits)
  also have "\<dots> = s\<lparr> priv_effectiveStartDate := a, priv_viewStartDate := b,
                viewStartTimeMins := c, viewEndTimeMins := d \<rparr>"
    unfolding m by (simp add: s2_def s1_def)
  finally show ?thesis by blast
qed

lemma updateViewProperties_fields:
  "schedulingItemsByDay (updateViewProperties now s) = schedulingItemsByDay s"
  "timeViewGranularityMins (updateViewProperties now s) = timeViewGranularityMins s"
  "viewStartDay (updateViewProperties now s) = viewStartDay s"
  "viewNumDays (updateViewProperties now s) = viewNumDays s"
  "selectedItems (updateViewProperties now s) = selectedItems s"
  "maxSelectedItems (updateViewProperties now s) = maxSelectedItems s"
  "seed (updateViewProperties now s) = seed s"
  "priv_timeSlotsView (updateViewProperties now s) = priv_timeSlotsView s"
  using updateViewProperties_shape [of now s] by auto

lemma addItem_granularity:
  "timeViewGranularityMins (snd (addItem spec now s)) = timeViewGranularityMins s"
  by (simp add: addItem_def Let_def updateViewProperties_fields insertItem_def split: sum.splits)

section \<open>The granularity\<close>

text \<open>
  Claim C6, as the code has it. The constructor stores the granularity 30; the setter
  throws for every assigned value, the default included, so the stored granularity stays
  what the constructor wrote; \<^verbatim>\<open>addItem\<close> does not touch it either.
\<close>

theorem timeViewGranularityMins_fixed:
  "timeViewGranularityMins (constructor now seed0) = 30
   \<and> set_timeViewGranularityMins v s = Inl Unimplemented
   \<and> timeViewGranularityMins (snd (addItem spec now s)) = timeViewGranularityMins s"
  by (simp add: constructor_def updateViewProperties_fields set_timeViewGranularityMins_def
        addItem_granularity)

text \<open>
  Claim C6 as stated fails: assigning the default value 30 to a new scheduler throws too,
  so the failure is not limited to values other than the default.
\<close>

theorem set_default_granularity_fails:
  "timeViewGranularityMins (constructor 0 0) = 30
   \<and> set_timeViewGranularityMins 30 (constructor 0 0) = Inl Unimplemented"
  by code_simp

section \<open>Selection\<close>

lemma findIndex_ge: "- 1 \<le> findIndex P xs"
  by (induction xs) (auto simp: Let_def)

lemma findIndex_neg_iff: "(findIndex P xs < 0) = (\<forall>x\<in>set xs. \<not> P x)"
  using findIndex_ge [of P] by (induction xs) (auto simp: Let_def)

lemma indexOf_notin: "x \<notin> set xs \<Longrightarrow> \<not> indexOf xs x > - 1"
  using findIndex_neg_iff [of "\<lambda>y. y = x" xs] by (auto simp: indexOf_def)

lemma indexOf_in: "x \<in> set xs \<Longrightarrow> indexOf xs x > - 1"
  using findIndex_neg_iff [of "\<lambda>y. y = x" xs] by (auto simp: indexOf_def)

lemma splice1_indexOf: "x \<in> set xs \<Longrightarrow> splice1 xs (indexOf xs x) = remove1 x xs"
proof (induction xs)
  case Nil
  then show ?case by simp
next
  case (Cons y ys)
  show ?case
  proof (cases "y = x")
    case True
    then show ?thesis by (simp add: splice1_def indexOf_def)
  next
    case False
    with Cons.prems have in_ys: "x \<in> set ys" by simp
    then have nn: "\<not> findIndex (\<lambda>y. y = x) ys < 0"
      by (simp add: findIndex_neg_iff)
    then have "indexOf (y # ys) x = indexOf ys x + 1"
      using False by (simp add: indexOf_def Let_def)
    moreover have "nat (indexOf ys x + 1) = Suc (nat (indexOf ys x))"
      using nn by (simp add: indexOf_def nat_add_distrib)
    ultimately show ?thesis
      using Cons.IH [OF in_ys] False by (simp add: splice1_def)
  qed
qed

text \<open>
  Claim C7. Toggling a selected item removes it (its first occurrence; the later items move
  down one rank); toggling a new item at the cap leaves the state unchanged when
  \<open>maxSelectedItems > 1\<close> and replaces the selection by the item otherwise; below the cap
  the item is appended. With \<open>maxSelectedItems = 2\<close> and three different items, toggling
  \<open>a\<close>, \<open>b\<close>, \<open>c\<close> gives \<open>[a, b]\<close>, then \<open>a\<close> gives \<open>[b]\<close>, then \<open>c\<close> gives \<open>[b, c]\<close>.
\<close>

theorem handleSelectItem_toggle:
  "(item \<in> set (selectedItems s) \<longrightarrow>
      handleSelectItem item s = s\<lparr> selectedItems := remove1 item (selectedItems s) \<rparr>)
   \<and> (item \<notin> set (selectedItems s) \<and> int (length (selectedItems s)) \<ge> maxSelectedItems s
        \<and> maxSelectedItems s > 1 \<longrightarrow> handleSelectItem item s = s)
   \<and> (item \<notin> set (selectedItems s) \<and> int (length (selectedItems s)) \<ge> maxSelectedItems s
        \<and> \<not> maxSelectedItems s > 1 \<longrightarrow>
      handleSelectItem item s = s\<lparr> selectedItems := [item] \<rparr>)
   \<and> (item \<notin> set (selectedItems s) \<and> int (length (selectedItems s)) < maxSelectedItems s \<longrightarrow>
      handleSelectItem item s = s\<lparr> selectedItems := selectedItems s @ [item] \<rparr>)
   \<and> (a \<noteq> b \<and> a \<noteq> c \<and> b \<noteq> c \<and> selectedItems s = [] \<and> maxSelectedItems s = 2 \<longrightarrow>
      selectedItems (handleSelectItem c (handleSelectItem b (handleSelectItem a s))) = [a, b]
      \<and> selectedItems (handleSelectItem a
           (handleSelectItem c (handleSelectItem b (handleSelectItem a s)))) = [b]
      \<and> selectedItems (handleSelectItem c (handleSelectItem a
           (handleSelectItem c (handleSelectItem b (handleSelectItem a s))))) = [b, c])"
proof -
  have rm: "handleSelectItem x t = t\<lparr> selectedItems := remove1 x (selectedItems t) \<rparr>"
    if "x \<in> set (selectedItems t)" for x t
    using that indexOf_in [OF that] by (simp add: handleSelectItem_def Let_def splice1_indexOf)
  have full: "handleSelectItem x t = t"
    if "x \<notin> set (selectedItems t)" "int (length (selectedItems t)) \<ge> maxSelectedItems t"
       "maxSelectedItems t > 1" for x t
    using that indexOf_notin [OF that(1)] by (simp add: handleSelectItem_def Let_def)
  have single: "handleSelectItem x t = t\<lparr> selectedItems := [x] \<rparr>"
    if "x \<notin> set (selectedItems t)" "int (length (selectedItems t)) \<ge> maxSelectedItems t"
       "\<not> maxSelectedItems t > 1" for x t
    using that indexOf_notin [OF that(1)] by (simp add: handleSelectItem_def Let_def)
  have app: "handleSelectItem x t = t\<lparr> selectedItems := selectedItems t @ [x] \<rparr>"
    if "x \<notin> set (selectedItems t)" "int (length (selectedItems t)) < maxSelectedItems t" for x t
    using that indexOf_notin [OF that(1)] by (simp add: handleSelectItem_def Let_def)
  have scen: "selectedItems (handleSelectItem c (handleSelectItem b (handleSelectItem a s))) = [a, b]
      \<and> selectedItems (handleSelectItem a
           (handleSelectItem c (handleSelectItem b (handleSelectItem a s)))) = [b]
      \<and> selectedItems (handleSelectItem c (handleSelectItem a
           (handleSelectItem c (handleSelectItem b (handleSelectItem a s))))) = [b, c]"
    if d: "a \<noteq> b" "a \<noteq> c" "b \<noteq> c" and e: "selectedItems s = []" and m: "maxSelectedItems s = 2"
  proof -
    define s1 where "s1 = handleSelectItem a s"
    define s2 where "s2 = handleSelectItem b s1"
    define s3 where "s3 = handleSelectItem c s2"
    define s4 where "s4 = handleSelectItem a s3"
    define s5 where "s5 = handleSelectItem c s4"
    have 1: "s1 = s\<lparr> selectedItems := [a] \<rparr>"
      unfolding s1_def using app [of a s] e m by simp
    have 2: "s2 = s\<lparr> selectedItems := [a, b] \<rparr>"
      unfolding s2_def using app [of b s1] d m by (simp add: 1)
    have 3: "s3 = s2"
      unfolding s3_def using full [of c s2] d m by (simp add: 2)
    have 4: "s4 = s\<lparr> selectedItems := [b] \<rparr>"
      unfolding s4_def using rm [of a s3] d by (simp add: 3 2)
    have 5: "s5 = s\<lparr> selectedItems := [b, c] \<rparr>"
      unfolding s5_def using app [of c s4] d m by (simp add: 4)
    have "selectedItems s3 = [a, b]" "selectedItems s4 = [b]" "selectedItems s5 = [b, c]"
      by (simp_all add: 2 3 4 5)
    then show ?thesis unfolding s5_def s4_def s3_def s2_def s1_def by blast
  qed
  show ?thesis using rm full single app scen by blast
qed


text \<open>
  The five cases of the theorem at a new scheduler and the items \<open>itemA\<close>, \<open>itemB\<close>,
  \<open>itemC\<close>.
\<close>

theorem handleSelectItem_toggle_witness:
  "handleSelectItem itemA ((constructor 0 0)\<lparr> selectedItems := [itemA, itemB] \<rparr>)
     = (constructor 0 0)\<lparr> selectedItems := [itemB] \<rparr>
   \<and> handleSelectItem itemC ((constructor 0 0)\<lparr> selectedItems := [itemA, itemB] \<rparr>)
     = (constructor 0 0)\<lparr> selectedItems := [itemA, itemB] \<rparr>
   \<and> handleSelectItem itemB ((constructor 0 0)\<lparr> selectedItems := [itemA], maxSelectedItems := 1 \<rparr>)
     = (constructor 0 0)\<lparr> selectedItems := [itemB], maxSelectedItems := 1 \<rparr>
   \<and> handleSelectItem itemB ((constructor 0 0)\<lparr> selectedItems := [itemA] \<rparr>)
     = (constructor 0 0)\<lparr> selectedItems := [itemA, itemB] \<rparr>
   \<and> selectedItems (handleSelectItem itemC (handleSelectItem itemB
         (handleSelectItem itemA (constructor 0 0)))) = [itemA, itemB]
   \<and> selectedItems (handleSelectItem itemA (handleSelectItem itemC (handleSelectItem itemB
         (handleSelectItem itemA (constructor 0 0))))) = [itemB]
   \<and> selectedItems (handleSelectItem itemC (handleSelectItem itemA (handleSelectItem itemC
         (handleSelectItem itemB (handleSelectItem itemA (constructor 0 0)))))) = [itemB, itemC]"
proof -
  let ?s = "constructor 0 0"
  have h1: "itemA \<in> set (selectedItems (?s\<lparr> selectedItems := [itemA, itemB] \<rparr>))"
    by simp
  have h2: "itemC \<notin> set (selectedItems (?s\<lparr> selectedItems := [itemA, itemB] \<rparr>))
            \<and> int (length (selectedItems (?s\<lparr> selectedItems := [itemA, itemB] \<rparr>)))
                \<ge> maxSelectedItems (?s\<lparr> selectedItems := [itemA, itemB] \<rparr>)
            \<and> maxSelectedItems (?s\<lparr> selectedItems := [itemA, itemB] \<rparr>) > 1"
    by code_simp
  have h3: "itemB \<notin> set (selectedItems (?s\<lparr> selectedItems := [itemA], maxSelectedItems := 1 \<rparr>))
            \<and> int (length (selectedItems (?s\<lparr> selectedItems := [itemA], maxSelectedItems := 1 \<rparr>)))
                \<ge> maxSelectedItems (?s\<lparr> selectedItems := [itemA], maxSelectedItems := 1 \<rparr>)
            \<and> \<not> maxSelectedItems (?s\<lparr> selectedItems := [itemA], maxSelectedItems := 1 \<rparr>) > 1"
    by code_simp
  have h4: "itemB \<notin> set (selectedItems (?s\<lparr> selectedItems := [itemA] \<rparr>))
            \<and> int (length (selectedItems (?s\<lparr> selectedItems := [itemA] \<rparr>)))
                < maxSelectedItems (?s\<lparr> selectedItems := [itemA] \<rparr>)"
    by code_simp
  have h5: "itemA \<noteq> itemB \<and> itemA \<noteq> itemC \<and> itemB \<noteq> itemC
            \<and> selectedItems ?s = [] \<and> maxSelectedItems ?s = 2"
    by code_simp
  have ab: "itemA \<noteq> itemB" using h5 by blast
  have c1: "handleSelectItem itemA (?s\<lparr> selectedItems := [itemA, itemB] \<rparr>)
            = ?s\<lparr> selectedItems := [itemB] \<rparr>"
    using handleSelectItem_toggle [of itemA "?s\<lparr> selectedItems := [itemA, itemB] \<rparr>"] h1 ab
    by simp
  have c2: "handleSelectItem itemC (?s\<lparr> selectedItems := [itemA, itemB] \<rparr>)
            = ?s\<lparr> selectedItems := [itemA, itemB] \<rparr>"
    using handleSelectItem_toggle [of itemC "?s\<lparr> selectedItems := [itemA, itemB] \<rparr>"] h2
    by blast
  have c3: "handleSelectItem itemB (?s\<lparr> selectedItems := [itemA], maxSelectedItems := 1 \<rparr>)
            = ?s\<lparr> selectedItems := [itemB], maxSelectedItems := 1 \<rparr>"
    using handleSelectItem_toggle
            [of itemB "?s\<lparr> selectedItems := [itemA], maxSelectedItems := 1 \<rparr>"] h3
    by simp
  have c4: "handleSelectItem itemB (?s\<lparr> selectedItems := [itemA] \<rparr>)
            = ?s\<lparr> selectedItems := [itemA, itemB] \<rparr>"
    using handleSelectItem_toggle [of itemB "?s\<lparr> selectedItems := [itemA] \<rparr>"] h4
    by simp
  show ?thesis
    using c1 c2 c3 c4 handleSelectItem_toggle [of _ ?s itemA itemB itemC] h5 by blast
qed

section \<open>The end-to-end scenario\<close>

text \<open>
  Claim C3, as the code has it. A new scheduler receives
  \<^verbatim>\<open>addItem({day: 2024-12-28, startTimeMins: 540, durationMins: 60})\<close>, with the caption
  \<^verbatim>\<open>null\<close> and a data object that the constructor of the item asks for. Then
  \<open>viewStartTimeMins = 540\<close> and \<open>viewEndTimeMins = 599\<close>, the item's \<open>endTimeMins\<close>, which is
  \<open>startTimeMins + durationMins - 1\<close>; the axis has the six slots 480 to 630, and the
  placement pass for that day returns five cells, exactly one of them with an item, of
  span 2 (the slot 570 it covers has no cell of its own).
\<close>

theorem addItem_scenario:
  "(let s1 = snd (addItem (plainSpec 1735344000000 540 60) now (constructor now0 seed0))
    in viewStartTimeMins s1 = 540
     \<and> viewEndTimeMins s1 = 599
     \<and> map_option fst (get_timeSlotsView s1)
         = Some [(480, False), (510, False), (540, True), (570, True), (600, False), (630, False)]
     \<and> map_option fst (renderTimeCells 1735344000000 s1)
         = Some (Inr [\<lparr> cellMins = 480, cellItem = None, cellRowSpan = None \<rparr>,
                      \<lparr> cellMins = 510, cellItem = None, cellRowSpan = None \<rparr>,
                      \<lparr> cellMins = 540,
                        cellItem = Some \<lparr> itemId = seed0 + 1, day = 1735344000000, caption = JNull,
                                          startTimeMins = 540, durationMins = 60, data = JObj \<rparr>,
                        cellRowSpan = Some 2 \<rparr>,
                      \<lparr> cellMins = 600, cellItem = None, cellRowSpan = None \<rparr>,
                      \<lparr> cellMins = 630, cellItem = None, cellRowSpan = None \<rparr>]))"
  by code_simp


text \<open>
  Claim C3 as stated fails in one value: \<open>viewEndTimeMins\<close> is not 600 after the call.
\<close>

theorem viewEndTimeMins_is_last_minute:
  "viewEndTimeMins (snd (addItem (plainSpec 1735344000000 540 60) 1735300000000
                      (constructor 1735300000000 0))) \<noteq> 600"
  by code_simp

section \<open>The derived time bounds\<close>

text \<open>
  Claim C2 does not hold of the code. A new scheduler receives two items for Monday
  2024-12-23, the first at 600 for 60 minutes and the second at 540 for 30 minutes. The
  view starts on that Monday and is six days wide, so both items are in the window; their
  smallest \<open>startTimeMins\<close> is 540 and their largest \<open>endTimeMins\<close> is 659.
  \<^verbatim>\<open>#calculateMinStartTime\<close> reads only the first item of a bucket and
  \<^verbatim>\<open>#calculateMaxEndTime\<close> only the last one: the scheduler stores 600 and 569.
\<close>

theorem time_bounds_from_first_and_last_item:
  "(let s2 = snd (addItem (plainSpec 1734912000000 540 30) 1734900000000
                (snd (addItem (plainSpec 1734912000000 600 60) 1734900000000
                   (constructor 1734900000000 0))))
    in map (\<lambda>item. (startTimeMins item, endTimeMins item))
         (concat (map items (schedulingItemsByDay s2))) = [(600, 659), (540, 569)]
     \<and> fst (get_viewStartDate 1734900000000 s2) = 1734912000000
     \<and> viewNumDays s2 = 6
     \<and> viewStartTimeMins s2 = 600
     \<and> viewEndTimeMins s2 = 569
     \<and> spec_viewStartTimeMins 1734912000000 s2 = 540
     \<and> spec_viewEndTimeMins 1734912000000 s2 = 659)"
  by code_simp

section \<open>The item store\<close>

lemma calculateTheDaysItems_lookupDay:
  "calculateTheDaysItems d s = lookupDay d (schedulingItemsByDay s)"
  by (simp add: calculateTheDaysItems_def lookupDay_def split: option.splits)

lemma map_bucketDay_pushToFound: "map bucketDay (pushToFound d item bs) = map bucketDay bs"
  by (induction bs) auto

lemma lookupDay_pushToFound_other:
  "calendarDay d' \<noteq> calendarDay d \<Longrightarrow> lookupDay d' (pushToFound d item bs) = lookupDay d' bs"
  by (induction bs) (auto simp: lookupDay_def)

lemma lookupDay_pushToFound_same:
  "calendarDay d' = calendarDay d \<Longrightarrow> lookupDay d bs = Some xs \<Longrightarrow>
   lookupDay d' (pushToFound d item bs) = Some (xs @ [item])"
  by (induction bs) (auto simp: lookupDay_def split: if_splits)

lemma lookupDay_None_iff:
  "(lookupDay d bs = None) = (\<forall>b\<in>set bs. calendarDay (bucketDay b) \<noteq> calendarDay d)"
  by (induction bs) (auto simp: lookupDay_def)

lemma lookupDay_unique:
  assumes "distinct (map (calendarDay \<circ> bucketDay) bs)" "b \<in> set bs"
    "calendarDay (bucketDay b) = calendarDay d"
  shows "lookupDay d bs = Some (items b)"
  using assms
proof (induction bs)
  case Nil
  then show ?case by simp
next
  case (Cons x xs)
  show ?case
  proof (cases "x = b")
    case True
    then show ?thesis using Cons.prems by (simp add: lookupDay_def)
  next
    case False
    then have b: "b \<in> set xs" using Cons.prems by simp
    then have "calendarDay (bucketDay x) \<noteq> calendarDay (bucketDay b)"
      using Cons.prems(1) by force
    then show ?thesis using Cons.IH b Cons.prems by (simp add: lookupDay_def)
  qed
qed

lemma lookupDay_Some_mem:
  "lookupDay d bs = Some xs \<Longrightarrow> \<exists>b\<in>set bs. calendarDay (bucketDay b) = calendarDay d \<and> items b = xs"
  by (induction bs) (auto simp: lookupDay_def split: if_splits)

lemma lookupDay_cong_set:
  assumes "distinct (map (calendarDay \<circ> bucketDay) bs)" "distinct (map (calendarDay \<circ> bucketDay) cs)"
    "set bs = set cs"
  shows "lookupDay d bs = lookupDay d cs"
proof (cases "lookupDay d bs")
  case None
  then show ?thesis using assms(3) lookupDay_None_iff [of d bs] lookupDay_None_iff [of d cs] by simp
next
  case (Some xs)
  then obtain b where "b \<in> set bs" "calendarDay (bucketDay b) = calendarDay d" "items b = xs"
    using lookupDay_Some_mem by blast
  then show ?thesis using Some lookupDay_unique [OF assms(2), of b d] assms(3) by simp
qed

lemma lookupDay_append_new:
  "calendarDay d' \<noteq> calendarDay (bucketDay nb) \<Longrightarrow> lookupDay d' (bs @ [nb]) = lookupDay d' bs"
  by (induction bs) (auto simp: lookupDay_def)

lemma lookupDay_append_new_same:
  "lookupDay d bs = None \<Longrightarrow> calendarDay (bucketDay nb) = calendarDay d \<Longrightarrow>
   lookupDay d (bs @ [nb]) = Some (items nb)"
  by (induction bs) (auto simp: lookupDay_def split: if_splits)

lemma distinct_days_append_new:
  assumes "distinct (map (calendarDay \<circ> bucketDay) bs)" "lookupDay (bucketDay nb) bs = None"
  shows "distinct (map (calendarDay \<circ> bucketDay) (bs @ [nb]))"
  using assms lookupDay_None_iff [of "bucketDay nb" bs] by auto

lemma distinct_days_sort:
  "distinct (map (calendarDay \<circ> bucketDay) (sort_key bucketDay bs))
   = distinct (map (calendarDay \<circ> bucketDay) bs)"
  by (simp add: distinct_map)

lemma insertItem_buckets:
  "schedulingItemsByDay (insertItem item s)
   = pushToFound (day item) item (newBuckets item (schedulingItemsByDay s))"
proof -
  have e: "(\<lambda>d. calendarDay (day item) = calendarDay (bucketDay d))
        = (\<lambda>b. calendarDay (bucketDay b) = calendarDay (day item))" by auto
  show ?thesis
    unfolding insertItem_def newBuckets_def lookupDay_def Let_def e
    by (simp split: option.splits)
qed

lemma insertItem_sorted:
  assumes "sorted (map bucketDay (schedulingItemsByDay s))"
  shows "sorted (map bucketDay (schedulingItemsByDay (insertItem item s)))"
  using assms
  by (simp add: insertItem_buckets map_bucketDay_pushToFound newBuckets_def
        split: option.splits)

lemma insertItem_distinct:
  assumes "distinct (map (calendarDay \<circ> bucketDay) (schedulingItemsByDay s))"
  shows "distinct (map (calendarDay \<circ> bucketDay) (schedulingItemsByDay (insertItem item s)))"
proof -
  have "map (calendarDay \<circ> bucketDay) (pushToFound d it bs) = map (calendarDay \<circ> bucketDay) bs"
    for d it bs
    using map_bucketDay_pushToFound [of d it bs] by (metis map_map)
  moreover have "distinct (map (calendarDay \<circ> bucketDay) (newBuckets item (schedulingItemsByDay s)))"
  proof (cases "lookupDay (day item) (schedulingItemsByDay s)")
    case None
    then show ?thesis
      using distinct_days_append_new [OF assms, of "\<lparr> bucketDay = day item, items = [] \<rparr>"]
      unfolding newBuckets_def by (simp only: option.case distinct_days_sort) simp
  next
    case (Some xs)
    then show ?thesis using assms by (simp add: newBuckets_def)
  qed
  ultimately show ?thesis by (simp only: insertItem_buckets)
qed

lemma insertItem_lookup_same:
  assumes "calendarDay d = calendarDay (day item)"
  shows "lookupDay d (schedulingItemsByDay (insertItem item s))
         = Some ((case lookupDay (day item) (schedulingItemsByDay s) of None \<Rightarrow> [] | Some xs \<Rightarrow> xs)
                 @ [item])"
proof (cases "lookupDay (day item) (schedulingItemsByDay s)")
  case (Some xs)
  then show ?thesis
    using lookupDay_pushToFound_same [OF assms Some]
    by (simp add: insertItem_buckets newBuckets_def)
next
  case None
  define nb where "nb = \<lparr> bucketDay = day item, items = [] \<rparr>"
  define cs where "cs = sort_key bucketDay (schedulingItemsByDay s @ [nb])"
  have u: "\<forall>b\<in>set cs. calendarDay (bucketDay b) = calendarDay (day item) \<longrightarrow> b = nb"
    using None lookupDay_None_iff [of "day item" "schedulingItemsByDay s"]
    by (auto simp: cs_def)
  have m: "nb \<in> set cs" by (simp add: cs_def)
  have "lookupDay (day item) cs = Some []"
    using m u
  proof (induction cs)
    case Nil
    then show ?case by simp
  next
    case (Cons x xs)
    then show ?case by (auto simp: lookupDay_def nb_def)
  qed
  then have "lookupDay d (pushToFound (day item) item cs) = Some ([] @ [item])"
    by (rule lookupDay_pushToFound_same [OF assms])
  then show ?thesis
    using None by (simp add: insertItem_buckets newBuckets_def cs_def nb_def)
qed

lemma insertItem_lookup_other:
  assumes "calendarDay d \<noteq> calendarDay (day item)"
    and "distinct (map (calendarDay \<circ> bucketDay) (schedulingItemsByDay s))"
  shows "lookupDay d (schedulingItemsByDay (insertItem item s)) = lookupDay d (schedulingItemsByDay s)"
proof (cases "lookupDay (day item) (schedulingItemsByDay s)")
  case (Some xs)
  then show ?thesis
    using lookupDay_pushToFound_other [OF assms(1)]
    by (simp add: insertItem_buckets newBuckets_def)
next
  case None
  define nb where "nb = \<lparr> bucketDay = day item, items = [] \<rparr>"
  define bs where "bs = schedulingItemsByDay s"
  have d1: "distinct (map (calendarDay \<circ> bucketDay) (bs @ [nb]))"
    using distinct_days_append_new [of bs nb] assms(2) None by (simp add: bs_def nb_def)
  then have d2: "distinct (map (calendarDay \<circ> bucketDay) (sort_key bucketDay (bs @ [nb])))"
    by (simp only: distinct_days_sort)
  have "lookupDay d (sort_key bucketDay (bs @ [nb])) = lookupDay d (bs @ [nb])"
    by (rule lookupDay_cong_set [OF d2 d1]) simp
  also have "\<dots> = lookupDay d bs"
    using assms(1) by (simp add: lookupDay_append_new nb_def)
  finally show ?thesis
    using None lookupDay_pushToFound_other [OF assms(1)]
    by (simp add: insertItem_buckets newBuckets_def bs_def nb_def)
qed


lemma lookupDay_calendarDay_cong:
  "calendarDay d = calendarDay d' \<Longrightarrow> lookupDay d bs = lookupDay d' bs"
  by (simp add: lookupDay_def)

lemma storeConsistent_insertItem:
  assumes "storeConsistent (schedulingItemsByDay s) added"
  shows "storeConsistent (schedulingItemsByDay (insertItem item s)) (added @ [item])"
proof -
  have srt: "sorted (map bucketDay (schedulingItemsByDay s))"
    and dst: "distinct (map (calendarDay \<circ> bucketDay) (schedulingItemsByDay s))"
    and lk: "\<And>d. lookupDay d (schedulingItemsByDay s) = itemsOfDay d added"
    using assms by (simp_all add: storeConsistent_def)
  have "lookupDay d (schedulingItemsByDay (insertItem item s)) = itemsOfDay d (added @ [item])" for d
  proof (cases "calendarDay d = calendarDay (day item)")
    case True
    have "lookupDay (day item) (schedulingItemsByDay s) = itemsOfDay d added"
      using lk [of d] lookupDay_calendarDay_cong [OF True] by simp
    then show ?thesis
      using True insertItem_lookup_same [OF True, of s]
      by (simp add: itemsOfDay_def Let_def split: if_splits)
  next
    case False
    then show ?thesis
      using insertItem_lookup_other [OF False dst] lk [of d]
      by (simp add: itemsOfDay_def Let_def)
  qed
  then show ?thesis
    using insertItem_sorted [OF srt] insertItem_distinct [OF dst]
    by (simp add: storeConsistent_def)
qed

lemma addItem_cases:
  obtains (err) e where "addItem spec now s = (Inl e, s\<lparr> seed := seed s + 1 \<rparr>)"
      "SchedulingItem (seed s + 1) spec = Inl e"
  | (ok) item where
      "addItem spec now s
         = (Inr item, updateViewProperties now (insertItem item (s\<lparr> seed := seed s + 1 \<rparr>)))"
      "SchedulingItem (seed s + 1) spec = Inr item"
  by (cases "SchedulingItem (seed s + 1) spec") (auto simp: addItem_def Let_def)

lemma insertItem_seed_buckets:
  "schedulingItemsByDay (insertItem item (s\<lparr> seed := n \<rparr>)) = schedulingItemsByDay (insertItem item s)"
  by (simp add: insertItem_def Let_def)

lemma addItems_consistent:
  "storeConsistent (schedulingItemsByDay s) acc \<Longrightarrow>
   storeConsistent (schedulingItemsByDay (snd (addItems calls s))) (acc @ fst (addItems calls s))"
proof (induction calls arbitrary: s acc)
  case Nil
  then show ?case by simp
next
  case (Cons c calls)
  obtain spec now where c: "c = (spec, now)" by (cases c)
  show ?case
  proof (cases rule: addItem_cases [of spec now s])
    case (err e)
    have "storeConsistent (schedulingItemsByDay (s\<lparr> seed := seed s + 1 \<rparr>)) acc"
      using Cons.prems by simp
    from Cons.IH [OF this] show ?thesis by (simp add: c err)
  next
    case (ok item)
    have "storeConsistent (schedulingItemsByDay
            (updateViewProperties now (insertItem item (s\<lparr> seed := seed s + 1 \<rparr>))))
            (acc @ [item])"
      using storeConsistent_insertItem [OF Cons.prems, of item]
      by (simp add: updateViewProperties_fields insertItem_seed_buckets)
    from Cons.IH [OF this] show ?thesis by (simp add: c ok case_prod_beta)
  qed
qed

lemma SchedulingItem_expected_Some:
  "expectedItem n spec = Some item \<Longrightarrow> SchedulingItem n spec = Inr item"
  by (auto simp: expectedItem_def SchedulingItem_def split: jsval.splits if_splits)

lemma SchedulingItem_expected_None:
  "expectedItem n spec = None \<Longrightarrow> \<exists>e. SchedulingItem n spec = Inl e"
  by (auto simp: expectedItem_def SchedulingItem_def split: jsval.splits if_splits)

lemma expectedItem_SchedulingItem:
  "expectedItem n spec = (case SchedulingItem n spec of Inl e \<Rightarrow> None | Inr item \<Rightarrow> Some item)"
proof (cases "expectedItem n spec")
  case None
  then show ?thesis using SchedulingItem_expected_None [OF None] by auto
next
  case (Some item)
  then show ?thesis using SchedulingItem_expected_Some [OF Some] by simp
qed

lemma addItems_expected:
  "fst (addItems calls s) = expectedItems (seed s) (map fst calls)"
proof (induction calls arbitrary: s)
  case Nil
  then show ?case by simp
next
  case (Cons c calls)
  obtain spec now where c: "c = (spec, now)" by (cases c)
  show ?case
  proof (cases rule: addItem_cases [of spec now s])
    case (err e)
    have x: "expectedItem (Suc (seed s)) spec = None"
      using err(2) by (simp add: expectedItem_SchedulingItem)
    show ?thesis
      using Cons.IH [of "s\<lparr> seed := seed s + 1 \<rparr>"] by (simp add: c err(1) x)
  next
    case (ok item)
    have x: "expectedItem (Suc (seed s)) spec = Some item"
      using ok(2) by (simp add: expectedItem_SchedulingItem)
    have sd: "seed (updateViewProperties now (insertItem item (s\<lparr> seed := Suc (seed s) \<rparr>)))
              = Suc (seed s)"
      by (simp add: updateViewProperties_fields insertItem_def Let_def)
    show ?thesis
      using Cons.IH [of "updateViewProperties now (insertItem item (s\<lparr> seed := seed s + 1 \<rparr>))"]
      by (simp add: c ok(1) x sd case_prod_beta)
  qed
qed

text \<open>
  Claim C9. After any sequence of \<^verbatim>\<open>addItem\<close> calls on a new scheduler, the items the calls
  returned are the items of the well-typed specs passed, in the order of the calls (a call
  with another spec throws and adds nothing); the buckets are sorted ascending by day, no
  two buckets are of the same calendar date, and \<^verbatim>\<open>calculateTheDaysItems\<close> returns for a
  calendar date exactly the items of the well-typed specs of that date, in the order of
  the calls, and \<^verbatim>\<open>undefined\<close> when there is none.
\<close>

theorem addItems_sorted_lookup:
  "(let (added, s1) = addItems calls (constructor now0 seed0)
    in added = expectedItems seed0 (map fst calls)
     \<and> sorted (map bucketDay (schedulingItemsByDay s1))
     \<and> distinct (map (calendarDay \<circ> bucketDay) (schedulingItemsByDay s1))
     \<and> calculateTheDaysItems d s1
         = (let xs = filter (\<lambda>item. calendarDay (day item) = calendarDay d)
                       (expectedItems seed0 (map fst calls))
            in if xs = [] then None else Some xs))"
proof -
  have b: "schedulingItemsByDay (constructor now0 seed0) = []"
    and sd: "seed (constructor now0 seed0) = seed0"
    by (simp_all add: constructor_def updateViewProperties_fields)
  have e: "fst (addItems calls (constructor now0 seed0)) = expectedItems seed0 (map fst calls)"
    using addItems_expected [of calls "constructor now0 seed0"] sd by simp
  have "storeConsistent (schedulingItemsByDay (constructor now0 seed0)) []"
    using b by (simp add: storeConsistent_def lookupDay_def itemsOfDay_def)
  from addItems_consistent [OF this, of calls] show ?thesis
    unfolding e [symmetric]
    by (simp add: storeConsistent_def calculateTheDaysItems_lookupDay itemsOfDay_def
          case_prod_beta)
qed



section \<open>Validation in \<^verbatim>\<open>addItem\<close>\<close>

lemma SchedulingItem_rejects:
  assumes "(\<forall>d. spec_day spec \<noteq> JDate d) \<or> (\<forall>n. spec_startTimeMins spec \<noteq> JNum n)
           \<or> (\<forall>n. spec_durationMins spec \<noteq> JNum n)"
  shows "\<exists>e. SchedulingItem n spec = Inl e"
  using assms by (auto simp: SchedulingItem_def split: jsval.splits)

lemma SchedulingItem_accepts:
  assumes "spec_day spec = JDate d" "spec_startTimeMins spec = JNum sta"
    "spec_durationMins spec = JNum dur"
    "spec_caption spec = JNull \<or> isNonEmptyString (spec_caption spec) \<or> isFunction (spec_caption spec)"
    "isObject (spec_data spec)"
  shows "SchedulingItem n spec
         = Inr \<lparr> itemId = n, day = d, caption = spec_caption spec, startTimeMins = sta,
                 durationMins = dur, data = spec_data spec \<rparr>"
  using assms by (auto simp: SchedulingItem_def)

text \<open>
  Claim C5, as the code has it. The constructor of the item checks types only. A spec
  whose \<open>day\<close> is not a \<^verbatim>\<open>Date\<close> (a missing day is \<^verbatim>\<open>undefined\<close>), or whose \<open>startTimeMins\<close>
  or \<open>durationMins\<close> is not a number, is rejected; whenever \<^verbatim>\<open>addItem\<close> throws, the
  scheduler is as before but for the id counter. A spec with a \<^verbatim>\<open>Date\<close>, two numbers, a
  caption that is \<^verbatim>\<open>null\<close>, a non-empty string or a function, and a data object is accepted
  whatever the two numbers are, and the new item is the last one of its day.
\<close>

theorem addItem_validation:
  "(((\<forall>d. spec_day spec \<noteq> JDate d) \<or> (\<forall>n. spec_startTimeMins spec \<noteq> JNum n)
       \<or> (\<forall>n. spec_durationMins spec \<noteq> JNum n))
      \<longrightarrow> (\<exists>e. addItem spec now s = (Inl e, s\<lparr> seed := seed s + 1 \<rparr>)))
   \<and> (fst (addItem spec now s) = Inl e
      \<longrightarrow> snd (addItem spec now s) = s\<lparr> seed := seed s + 1 \<rparr>)
   \<and> (spec_day spec = JDate d \<and> spec_startTimeMins spec = JNum sta
       \<and> spec_durationMins spec = JNum dur
       \<and> (spec_caption spec = JNull \<or> isNonEmptyString (spec_caption spec)
            \<or> isFunction (spec_caption spec))
       \<and> isObject (spec_data spec)
      \<longrightarrow> (let item = \<lparr> itemId = seed s + 1, day = d, caption = spec_caption spec,
                          startTimeMins = sta, durationMins = dur, data = spec_data spec \<rparr>
           in fst (addItem spec now s) = Inr item
            \<and> calculateTheDaysItems d (snd (addItem spec now s))
                = Some ((case calculateTheDaysItems d s of None \<Rightarrow> [] | Some xs \<Rightarrow> xs) @ [item])))"
proof (intro conjI impI)
  assume "(\<forall>d. spec_day spec \<noteq> JDate d) \<or> (\<forall>n. spec_startTimeMins spec \<noteq> JNum n)
       \<or> (\<forall>n. spec_durationMins spec \<noteq> JNum n)"
  then obtain e where "SchedulingItem (seed s + 1) spec = Inl e"
    using SchedulingItem_rejects by blast
  then show "\<exists>e. addItem spec now s = (Inl e, s\<lparr> seed := seed s + 1 \<rparr>)"
    by (simp add: addItem_def Let_def)
next
  assume "fst (addItem spec now s) = Inl e"
  then show "snd (addItem spec now s) = s\<lparr> seed := seed s + 1 \<rparr>"
    by (cases rule: addItem_cases [of spec now s]) simp_all
next
  assume a: "spec_day spec = JDate d \<and> spec_startTimeMins spec = JNum sta
       \<and> spec_durationMins spec = JNum dur
       \<and> (spec_caption spec = JNull \<or> isNonEmptyString (spec_caption spec)
            \<or> isFunction (spec_caption spec))
       \<and> isObject (spec_data spec)"
  define item where "item = \<lparr> itemId = seed s + 1, day = d, caption = spec_caption spec,
                          startTimeMins = sta, durationMins = dur, data = spec_data spec \<rparr>"
  have c: "SchedulingItem (seed s + 1) spec = Inr item"
    unfolding item_def using a by (intro SchedulingItem_accepts) simp_all
  then have r: "addItem spec now s
       = (Inr item, updateViewProperties now (insertItem item (s\<lparr> seed := seed s + 1 \<rparr>)))"
    by (simp add: addItem_def Let_def)
  have d: "day item = d" by (simp add: item_def)
  have "calculateTheDaysItems d (snd (addItem spec now s))
          = Some ((case calculateTheDaysItems d s of None \<Rightarrow> [] | Some xs \<Rightarrow> xs) @ [item])"
    using insertItem_lookup_same [of d item s] d
    by (simp add: r calculateTheDaysItems_lookupDay updateViewProperties_fields
          insertItem_seed_buckets)
  then show "let item = \<lparr> itemId = seed s + 1, day = d, caption = spec_caption spec,
                          startTimeMins = sta, durationMins = dur, data = spec_data spec \<rparr>
           in fst (addItem spec now s) = Inr item
            \<and> calculateTheDaysItems d (snd (addItem spec now s))
                = Some ((case calculateTheDaysItems d s of None \<Rightarrow> [] | Some xs \<Rightarrow> xs) @ [item])"
    unfolding Let_def item_def [symmetric] by (simp add: r)
qed


text \<open>
  The three parts of the theorem at a new scheduler: a spec without a day is rejected and
  leaves the store alone, a full spec is accepted.
\<close>

theorem addItem_validation_witness:
  "(\<exists>e. addItem ((plainSpec 1734912000000 540 60)\<lparr> spec_day := JUndefined \<rparr>) 1734900000000
            (constructor 1734900000000 0)
          = (Inl e, (constructor 1734900000000 0)
                      \<lparr> seed := seed (constructor 1734900000000 0) + 1 \<rparr>))
   \<and> snd (addItem ((plainSpec 1734912000000 540 60)\<lparr> spec_day := JUndefined \<rparr>) 1734900000000
            (constructor 1734900000000 0))
       = (constructor 1734900000000 0)\<lparr> seed := seed (constructor 1734900000000 0) + 1 \<rparr>
   \<and> fst (addItem (plainSpec 1734912000000 540 60) 1734900000000 (constructor 1734900000000 0))
       = Inr \<lparr> itemId = 1, day = 1734912000000, caption = JNull, startTimeMins = 540,
               durationMins = 60, data = JObj \<rparr>
   \<and> calculateTheDaysItems 1734912000000
         (snd (addItem (plainSpec 1734912000000 540 60) 1734900000000
                 (constructor 1734900000000 0)))
       = Some [\<lparr> itemId = 1, day = 1734912000000, caption = JNull, startTimeMins = 540,
                 durationMins = 60, data = JObj \<rparr>]"
proof -
  let ?s = "constructor 1734900000000 0"
  let ?bad = "(plainSpec 1734912000000 540 60)\<lparr> spec_day := JUndefined \<rparr>"
  let ?good = "plainSpec 1734912000000 540 60"
  have h1: "(\<forall>d. spec_day ?bad \<noteq> JDate d) \<or> (\<forall>n. spec_startTimeMins ?bad \<noteq> JNum n)
            \<or> (\<forall>n. spec_durationMins ?bad \<noteq> JNum n)"
    by simp
  have h2: "fst (addItem ?bad 1734900000000 ?s) = Inl (AvermentFailure ''isDate'')"
    by code_simp
  have h3: "spec_day ?good = JDate 1734912000000 \<and> spec_startTimeMins ?good = JNum 540
            \<and> spec_durationMins ?good = JNum 60
            \<and> (spec_caption ?good = JNull \<or> isNonEmptyString (spec_caption ?good)
                 \<or> isFunction (spec_caption ?good))
            \<and> isObject (spec_data ?good)"
    by (simp add: plainSpec_def isObject_def)
  have s0: "seed ?s = 0" "calculateTheDaysItems 1734912000000 ?s = None"
    by code_simp+
  have c1: "\<exists>e. addItem ?bad 1734900000000 ?s = (Inl e, ?s\<lparr> seed := seed ?s + 1 \<rparr>)"
    using addItem_validation [of ?bad 1734900000000 ?s] h1 by blast
  have c2: "snd (addItem ?bad 1734900000000 ?s) = ?s\<lparr> seed := seed ?s + 1 \<rparr>"
    using addItem_validation [of ?bad 1734900000000 ?s "AvermentFailure ''isDate''"] h2 by blast
  have c3: "(let item = \<lparr> itemId = seed ?s + 1, day = 1734912000000, caption = spec_caption ?good,
                          startTimeMins = 540, durationMins = 60, data = spec_data ?good \<rparr>
           in fst (addItem ?good 1734900000000 ?s) = Inr item
            \<and> calculateTheDaysItems 1734912000000 (snd (addItem ?good 1734900000000 ?s))
                = Some ((case calculateTheDaysItems 1734912000000 ?s of
                           None \<Rightarrow> [] | Some xs \<Rightarrow> xs) @ [item]))"
    using addItem_validation [of ?good 1734900000000 ?s _ 1734912000000 540 60] h3 by blast
  have c4: "fst (addItem ?good 1734900000000 ?s)
              = Inr \<lparr> itemId = 1, day = 1734912000000, caption = JNull, startTimeMins = 540,
                      durationMins = 60, data = JObj \<rparr>
            \<and> calculateTheDaysItems 1734912000000 (snd (addItem ?good 1734900000000 ?s))
              = Some [\<lparr> itemId = 1, day = 1734912000000, caption = JNull, startTimeMins = 540,
                        durationMins = 60, data = JObj \<rparr>]"
    using c3 unfolding Let_def s0 by (simp add: plainSpec_def)
  show ?thesis using c1 c2 c4 by blast
qed

text \<open>
  Claim C5 as stated fails: a spec with \<open>durationMins = 0\<close> is accepted and stored, and so
  is one with \<open>startTimeMins = 2000\<close> and \<open>durationMins = -5\<close>.
\<close>

theorem addItem_accepts_nonpositive_duration:
  "fst (addItem (plainSpec 1734912000000 540 0) 1734900000000 (constructor 1734900000000 0))
     = Inr \<lparr> itemId = 1, day = 1734912000000, caption = JNull, startTimeMins = 540,
             durationMins = 0, data = JObj \<rparr>
   \<and> calculateTheDaysItems 1734912000000
        (snd (addItem (plainSpec 1734912000000 540 0) 1734900000000 (constructor 1734900000000 0)))
     = Some [\<lparr> itemId = 1, day = 1734912000000, caption = JNull, startTimeMins = 540,
               durationMins = 0, data = JObj \<rparr>]
   \<and> fst (addItem (plainSpec 1734912000000 2000 (- 5)) 1734900000000 (constructor 1734900000000 0))
     = Inr \<lparr> itemId = 1, day = 1734912000000, caption = JNull, startTimeMins = 2000,
             durationMins = - 5, data = JObj \<rparr>"
  by code_simp

section \<open>The transaction bracket\<close>

lemma insertItem_view_fields:
  "viewStartTimeMins (insertItem item s) = viewStartTimeMins s"
  "viewEndTimeMins (insertItem item s) = viewEndTimeMins s"
  by (simp_all add: insertItem_def Let_def)

lemma txAddItem_depth: "changeDepth (snd (txAddItem spec now t)) = changeDepth t"
  by (simp add: txAddItem_def Let_def flush_def split: sum.splits)

lemma txAddItem_deferred:
  assumes "0 < changeDepth t"
  shows "flushCount (snd (txAddItem spec now t)) = flushCount t"
    and "viewStartTimeMins (sched (snd (txAddItem spec now t))) = viewStartTimeMins (sched t)"
    and "viewEndTimeMins (sched (snd (txAddItem spec now t))) = viewEndTimeMins (sched t)"
  using assms by (simp_all add: txAddItem_def Let_def insertItem_view_fields split: sum.splits)

lemma txAddItem_outside:
  assumes "changeDepth t = 0"
  shows "txAddItem spec now t =
           (case addItem spec now (sched t) of
              (Inl e, s1) \<Rightarrow> (Inl e, t\<lparr> sched := s1 \<rparr>)
            | (Inr item, s1) \<Rightarrow> (Inr item, t\<lparr> sched := s1, flushCount := flushCount t + 1 \<rparr>))"
  using assms by (simp add: txAddItem_def addItem_def Let_def flush_def split: sum.splits)

lemma endChanges_inner:
  assumes "1 < changeDepth t"
  shows "endChanges now t = t\<lparr> changeDepth := changeDepth t - 1 \<rparr>"
  using assms by (simp add: endChanges_def Let_def)

lemma endChanges_outermost:
  assumes "changeDepth t = 1"
  shows "endChanges now t = flush now (t\<lparr> changeDepth := 0 \<rparr>)"
  using assms by (simp add: endChanges_def Let_def)

lemma runChange_inside:
  "0 < changeDepth t \<Longrightarrow>
     changeDepth (snd (runChange now c t)) = changeDepth t
     \<and> flushCount (snd (runChange now c t)) = flushCount t
     \<and> viewStartTimeMins (sched (snd (runChange now c t))) = viewStartTimeMins (sched t)
     \<and> viewEndTimeMins (sched (snd (runChange now c t))) = viewEndTimeMins (sched t)"
  "0 < changeDepth t \<Longrightarrow>
     changeDepth (snd (runChanges now cs t)) = changeDepth t
     \<and> flushCount (snd (runChanges now cs t)) = flushCount t
     \<and> viewStartTimeMins (sched (snd (runChanges now cs t))) = viewStartTimeMins (sched t)
     \<and> viewEndTimeMins (sched (snd (runChanges now cs t))) = viewEndTimeMins (sched t)"
proof (induction now c t and now cs t rule: runChange_runChanges.induct)
  case (1 now spec t)
  then show ?case
    using txAddItem_depth [of spec now t] txAddItem_deferred [of t spec now]
    by (auto split: prod.splits sum.splits)
next
  case (2 now body t)
  define t0 where "t0 = beginChanges t"
  define t1 where "t1 = snd (runChanges now body t0)"
  have d0: "changeDepth t0 = changeDepth t + 1" "flushCount t0 = flushCount t" "sched t0 = sched t"
    by (simp_all add: t0_def beginChanges_def)
  then have "0 < changeDepth t0" by simp
  from "2.IH" [OF this [unfolded t0_def]]
  have ih: "changeDepth t1 = changeDepth t0" "flushCount t1 = flushCount t0"
    "viewStartTimeMins (sched t1) = viewStartTimeMins (sched t0)"
    "viewEndTimeMins (sched t1) = viewEndTimeMins (sched t0)"
    by (simp_all add: t1_def t0_def)
  have "1 < changeDepth t1" using ih d0 "2.prems" by simp
  then have e: "endChanges now t1 = t1\<lparr> changeDepth := changeDepth t1 - 1 \<rparr>"
    by (rule endChanges_inner)
  have r: "snd (runChange now (Changes body) t) = endChanges now t1"
    by (simp add: t1_def t0_def case_prod_beta)
  show ?case unfolding r e using ih d0 by simp
next
  case (3 now t)
  then show ?case by simp
next
  case (4 now c cs t)
  show ?case
  proof (cases "fst (runChange now c t)")
    case None
    then have r: "runChanges now (c # cs) t = runChanges now cs (snd (runChange now c t))"
      by (cases "runChange now c t") simp
    have a: "changeDepth (snd (runChange now c t)) = changeDepth t
       \<and> flushCount (snd (runChange now c t)) = flushCount t
       \<and> viewStartTimeMins (sched (snd (runChange now c t))) = viewStartTimeMins (sched t)
       \<and> viewEndTimeMins (sched (snd (runChange now c t))) = viewEndTimeMins (sched t)"
      using "4.IH"(1) "4.prems" by blast
    then have "0 < changeDepth (snd (runChange now c t))" using "4.prems" by simp
    moreover have "(None, snd (runChange now c t)) = runChange now c t"
      using None by (metis prod.collapse)
    ultimately show ?thesis unfolding r using "4.IH"(2) a by simp
  next
    case (Some e)
    then have r: "runChanges now (c # cs) t = (Some e, snd (runChange now c t))"
      by (cases "runChange now c t") simp
    show ?thesis unfolding r using "4.IH"(1) "4.prems" by simp
  qed
qed

lemma bracket_flushes_once:
  assumes "changeDepth t = 0"
  shows "changeDepth (snd (runChange now (Changes body) t)) = 0"
    and "flushCount (snd (runChange now (Changes body) t)) = flushCount t + 1"
    and "sched (snd (runChange now (Changes body) t))
           = updateViewProperties now (sched (snd (runChanges now body (beginChanges t))))"
proof -
  define t0 where "t0 = beginChanges t"
  define t1 where "t1 = snd (runChanges now body t0)"
  have d0: "changeDepth t0 = 1" "flushCount t0 = flushCount t"
    using assms by (simp_all add: t0_def beginChanges_def)
  then have "0 < changeDepth t0" by simp
  from runChange_inside(2) [OF this, of now body]
  have ih: "changeDepth t1 = 1" "flushCount t1 = flushCount t"
    using d0 by (simp_all add: t1_def)
  have r: "snd (runChange now (Changes body) t) = endChanges now t1"
    by (simp add: t1_def t0_def case_prod_beta)
  have e: "endChanges now t1 = flush now (t1\<lparr> changeDepth := 0 \<rparr>)"
    using ih(1) by (rule endChanges_outermost)
  show "changeDepth (snd (runChange now (Changes body) t)) = 0"
    unfolding r e by (simp add: flush_def)
  show "flushCount (snd (runChange now (Changes body) t)) = flushCount t + 1"
    unfolding r e using ih by (simp add: flush_def)
  show "sched (snd (runChange now (Changes body) t))
           = updateViewProperties now (sched (snd (runChanges now body (beginChanges t))))"
    unfolding r e by (simp add: flush_def t1_def t0_def)
qed

text \<open>
  Claim C4, on the bracket as the specification describes it. \<^verbatim>\<open>beginChanges\<close> increments
  the depth counter. Inside an open bracket no change, be it an \<^verbatim>\<open>addItem\<close> or a whole
  nested bracket, flushes or alters the derived time bounds, and the depth is restored
  after it. A bracket opened outside any bracket ends at depth 0 with exactly one flush,
  the recomputation of the view properties on the store its body left, whether the body
  ran to its end or threw. Outside any bracket \<^verbatim>\<open>addItem\<close> is the \<^verbatim>\<open>addItem\<close> of the source,
  which recomputes at once.
\<close>

theorem bracket_defers_and_flushes_once:
  "changeDepth (beginChanges t) = changeDepth t + 1
   \<and> (0 < changeDepth t \<longrightarrow>
        changeDepth (snd (runChange now c t)) = changeDepth t
        \<and> flushCount (snd (runChange now c t)) = flushCount t
        \<and> viewStartTimeMins (sched (snd (runChange now c t))) = viewStartTimeMins (sched t)
        \<and> viewEndTimeMins (sched (snd (runChange now c t))) = viewEndTimeMins (sched t))
   \<and> (changeDepth t = 0 \<longrightarrow>
        changeDepth (snd (runChange now (Changes body) t)) = 0
        \<and> flushCount (snd (runChange now (Changes body) t)) = flushCount t + 1
        \<and> sched (snd (runChange now (Changes body) t))
            = updateViewProperties now (sched (snd (runChanges now body (beginChanges t)))))
   \<and> (changeDepth t = 0 \<longrightarrow>
        txAddItem spec now t =
           (case addItem spec now (sched t) of
              (Inl e, s1) \<Rightarrow> (Inl e, t\<lparr> sched := s1 \<rparr>)
            | (Inr item, s1) \<Rightarrow> (Inr item, t\<lparr> sched := s1, flushCount := flushCount t + 1 \<rparr>)))"
  using runChange_inside(1) [of t now c] bracket_flushes_once [of t now body]
    txAddItem_outside [of t spec now]
  by (simp add: beginChanges_def)


text \<open>
  The theorem at a new store: an \<^verbatim>\<open>addItem\<close> inside an open bracket defers, and a bracket
  whose body adds an item, runs a nested bracket and then throws on a spec without a day
  flushes once.
\<close>

theorem bracket_defers_and_flushes_once_witness:
  "fst (runChange 1734900000000
          (Changes [AddItem (plainSpec 1734912000000 540 60),
                    Changes [AddItem (plainSpec 1734998400000 600 30)],
                    AddItem ((plainSpec 1734912000000 660 30)\<lparr> spec_day := JUndefined \<rparr>),
                    AddItem (plainSpec 1734912000000 720 30)])
          (newStore 1734900000000)) = Some (AvermentFailure ''isDate'')
   \<and> changeDepth (snd (runChange 1734900000000
          (Changes [AddItem (plainSpec 1734912000000 540 60),
                    Changes [AddItem (plainSpec 1734998400000 600 30)],
                    AddItem ((plainSpec 1734912000000 660 30)\<lparr> spec_day := JUndefined \<rparr>),
                    AddItem (plainSpec 1734912000000 720 30)])
          (newStore 1734900000000))) = 0
   \<and> flushCount (snd (runChange 1734900000000
          (Changes [AddItem (plainSpec 1734912000000 540 60),
                    Changes [AddItem (plainSpec 1734998400000 600 30)],
                    AddItem ((plainSpec 1734912000000 660 30)\<lparr> spec_day := JUndefined \<rparr>),
                    AddItem (plainSpec 1734912000000 720 30)])
          (newStore 1734900000000))) = flushCount (newStore 1734900000000) + 1
   \<and> flushCount (snd (runChange 1734900000000 (AddItem (plainSpec 1734912000000 540 60))
          (beginChanges (newStore 1734900000000))))
       = flushCount (beginChanges (newStore 1734900000000))
   \<and> viewEndTimeMins (sched (snd (runChange 1734900000000
          (AddItem (plainSpec 1734912000000 540 60)) (beginChanges (newStore 1734900000000)))))
       = viewEndTimeMins (sched (beginChanges (newStore 1734900000000)))"
proof -
  let ?t = "newStore 1734900000000"
  let ?body = "[AddItem (plainSpec 1734912000000 540 60),
                Changes [AddItem (plainSpec 1734998400000 600 30)],
                AddItem ((plainSpec 1734912000000 660 30)\<lparr> spec_day := JUndefined \<rparr>),
                AddItem (plainSpec 1734912000000 720 30)]"
  have h0: "changeDepth ?t = 0" by code_simp
  have h1: "0 < changeDepth (beginChanges ?t)" by code_simp
  have thrown: "fst (runChange 1734900000000 (Changes ?body) ?t)
                  = Some (AvermentFailure ''isDate'')"
    by code_simp
  have c0: "changeDepth (snd (runChange 1734900000000 (Changes ?body) ?t)) = 0
            \<and> flushCount (snd (runChange 1734900000000 (Changes ?body) ?t)) = flushCount ?t + 1"
    using bracket_defers_and_flushes_once [of ?t 1734900000000 _ ?body] h0 by blast
  have c1: "flushCount (snd (runChange 1734900000000 (AddItem (plainSpec 1734912000000 540 60))
                (beginChanges ?t))) = flushCount (beginChanges ?t)
            \<and> viewEndTimeMins (sched (snd (runChange 1734900000000
                (AddItem (plainSpec 1734912000000 540 60)) (beginChanges ?t))))
                = viewEndTimeMins (sched (beginChanges ?t))"
    using bracket_defers_and_flushes_once
            [of "beginChanges ?t" 1734900000000 "AddItem (plainSpec 1734912000000 540 60)"] h1
    by blast
  show ?thesis using thrown c0 c1 by blast
qed

section \<open>Termination of the placement pass\<close>

lemma renderTimeCellsLoop_step:
  assumes "0 \<le> i" "i < int (length slots)"
  shows "renderTimeCellsLoop gran tdi slots i acc
         = renderTimeCellsLoop gran tdi slots (nextIndex gran tdi slots i)
             (acc @ [cellAt gran tdi slots i])"
  using assms
  by (subst renderTimeCellsLoop.simps)
     (simp add: nextIndex_def cellAt_def foundAt_def Let_def split: option.splits)

lemma renderTimeCellsLoop_end:
  assumes "int (length slots) \<le> i"
  shows "renderTimeCellsLoop gran tdi slots i acc = Some (Inr acc)"
  using assms by (subst renderTimeCellsLoop.simps) simp

lemma foundAt_Some:
  assumes "foundAt tdi slots i = Some item" "0 \<le> i" "i < int (length slots)"
  shows "item \<in> set (dayItems tdi) \<and> (startTimeMins item, True) \<in> set slots"
proof -
  have v: "snd (slots ! nat i)" using assms(1) by (simp add: foundAt_def split: if_splits)
  obtain its where its: "tdi = Some its"
    "find (\<lambda>item. startTimeMins item = fst (slots ! nat i)) its = Some item"
    using assms(1) v by (auto simp: foundAt_def split: option.splits)
  have "item \<in> set its" "startTimeMins item = fst (slots ! nat i)"
    using its(2) by (auto simp: find_Some_iff)
  moreover have "slots ! nat i \<in> set slots" using assms(2,3) by simp
  then have "(fst (slots ! nat i), True) \<in> set slots"
    using v by (metis prod.collapse)
  ultimately show ?thesis using its(1) by (simp add: dayItems_def)
qed

lemma renderTimeCellsLoop_returns:
  assumes g: "0 < gran"
    and ok: "\<forall>item\<in>set (dayItems tdi). (startTimeMins item, True) \<in> set slots
               \<longrightarrow> gran \<le> durationMins item"
    and i: "0 \<le> i"
  shows "\<exists>cells. renderTimeCellsLoop gran tdi slots i acc = Some (Inr (acc @ cells))
                 \<and> tiles slots i cells"
  using i
proof (induction "nat (int (length slots) - i)" arbitrary: i acc rule: less_induct)
  case less
  show ?case
  proof (cases "i < int (length slots)")
    case False
    then have "renderTimeCellsLoop gran tdi slots i acc = Some (Inr (acc @ []))"
      by (simp add: renderTimeCellsLoop_end)
    moreover have "tiles slots i []" using False by simp
    ultimately show ?thesis by blast
  next
    case True
    define c where "c = cellAt gran tdi slots i"
    define j where "j = nextIndex gran tdi slots i"
    have r: "1 \<le> rows c \<and> j = i + rows c \<and> cellMins c = fst (slots ! nat i)"
    proof (cases "foundAt tdi slots i")
      case None
      then show ?thesis by (simp add: c_def j_def cellAt_def nextIndex_def rows_def)
    next
      case (Some item)
      then have "gran \<le> durationMins item"
        using foundAt_Some [OF Some less.prems True] ok by blast
      then have "0 < durationMins item div gran"
        using g by (simp add: pos_imp_zdiv_pos_iff)
      then show ?thesis using Some by (simp add: c_def j_def cellAt_def nextIndex_def rows_def)
    qed
    then have "nat (int (length slots) - j) < nat (int (length slots) - i)" "0 \<le> j"
      using True less.prems by simp_all
    from less.hyps [OF this, of "acc @ [c]"]
    obtain cells where cells: "renderTimeCellsLoop gran tdi slots j (acc @ [c])
                          = Some (Inr ((acc @ [c]) @ cells))" "tiles slots j cells"
      by blast
    have "renderTimeCellsLoop gran tdi slots i acc = Some (Inr (acc @ (c # cells)))"
      using renderTimeCellsLoop_step [OF less.prems True, of gran tdi acc] cells(1)
      by (simp add: c_def j_def)
    moreover have "tiles slots i (c # cells)"
      using r cells(2) True less.prems by simp
    ultimately show ?thesis by blast
  qed
qed

lemma renderTimeCellsLoop_stuck:
  assumes "0 \<le> i" "i < int (length slots)" "foundAt tdi slots i = Some item"
    "durationMins item div gran = 0"
  shows "renderTimeCellsLoop gran tdi slots i acc = None"
proof -
  have n: "nextIndex gran tdi slots i = i" using assms(3,4) by (simp add: nextIndex_def)
  have "\<not> (g = gran \<and> t = tdi \<and> sl = slots \<and> k = i)"
    if major: "renderTimeCellsLoop g t sl k a = Some y" for g t sl k a y
  proof (rule renderTimeCellsLoop.raw_induct
           [where P = "\<lambda>g t sl k a y. \<not> (g = gran \<and> t = tdi \<and> sl = slots \<and> k = i)",
            OF _ major], goal_cases)
    case (1 f g t sl k a y)
    show ?case
    proof
      assume e: "g = gran \<and> t = tdi \<and> sl = slots \<and> k = i"
      have "f gran tdi slots i (a @ [cellAt gran tdi slots i]) = Some y"
        using "1"(2) assms e n
        by (simp add: foundAt_def cellAt_def Let_def split: option.splits if_splits)
      from "1"(1) [OF this] show False by simp
    qed
  qed
  then have "renderTimeCellsLoop gran tdi slots i acc \<noteq> Some y" for y by blast
  then show ?thesis by (meson not_None_eq)
qed


lemma renderTimeCellsLoop_reach:
  assumes "\<forall>m<n. 0 \<le> (nextIndex gran tdi slots ^^ m) j
                 \<and> (nextIndex gran tdi slots ^^ m) j < int (length slots)"
  shows "\<exists>acc'. renderTimeCellsLoop gran tdi slots j acc
               = renderTimeCellsLoop gran tdi slots ((nextIndex gran tdi slots ^^ n) j) acc'"
  using assms
proof (induction n)
  case 0
  then show ?case by auto
next
  case (Suc n)
  then obtain acc' where a: "renderTimeCellsLoop gran tdi slots j acc
               = renderTimeCellsLoop gran tdi slots ((nextIndex gran tdi slots ^^ n) j) acc'"
    by (meson less_Suc_eq)
  have b: "0 \<le> (nextIndex gran tdi slots ^^ n) j"
    "(nextIndex gran tdi slots ^^ n) j < int (length slots)"
    using Suc.prems by simp_all
  show ?case
    unfolding a renderTimeCellsLoop_step [OF b] by auto
qed

text \<open>
  Claim C10, as the code has it, for a granularity above 0. When every item of the day
  whose \<open>startTimeMins\<close> is the minute of an in-view slot lasts at least one granularity,
  the pass returns, and its cells cover the axis: every slot position is the position of a
  cell or lies inside the span of the placed item before it. When the pass reaches a slot,
  through \<open>n\<close> steps inside the axis, at which it finds an item with
  \<open>0 \<le> durationMins < granularity\<close>, the span is 0, the index stays where it is and the
  pass does not return.
\<close>

theorem renderTimeCells_termination:
  "(0 < gran \<and> (\<forall>item\<in>set (dayItems tdi). (startTimeMins item, True) \<in> set slots
                     \<longrightarrow> gran \<le> durationMins item)
      \<longrightarrow> (\<exists>cells. renderTimeCellsLoop gran tdi slots 0 [] = Some (Inr cells)
                   \<and> tiles slots 0 cells))
   \<and> (0 < gran
       \<and> (\<forall>m\<le>n. 0 \<le> (nextIndex gran tdi slots ^^ m) 0
                 \<and> (nextIndex gran tdi slots ^^ m) 0 < int (length slots))
       \<and> foundAt tdi slots ((nextIndex gran tdi slots ^^ n) 0) = Some item
       \<and> 0 \<le> durationMins item \<and> durationMins item < gran
      \<longrightarrow> renderTimeCellsLoop gran tdi slots 0 [] = None)"
proof (intro conjI impI)
  assume "0 < gran \<and> (\<forall>item\<in>set (dayItems tdi). (startTimeMins item, True) \<in> set slots
                     \<longrightarrow> gran \<le> durationMins item)"
  then show "\<exists>cells. renderTimeCellsLoop gran tdi slots 0 [] = Some (Inr cells)
                   \<and> tiles slots 0 cells"
    using renderTimeCellsLoop_returns [of gran tdi slots 0 "[]"] by simp
next
  assume a: "0 < gran
       \<and> (\<forall>m\<le>n. 0 \<le> (nextIndex gran tdi slots ^^ m) 0
                 \<and> (nextIndex gran tdi slots ^^ m) 0 < int (length slots))
       \<and> foundAt tdi slots ((nextIndex gran tdi slots ^^ n) 0) = Some item
       \<and> 0 \<le> durationMins item \<and> durationMins item < gran"
  define i where "i = (nextIndex gran tdi slots ^^ n) 0"
  have "\<forall>m<n. 0 \<le> (nextIndex gran tdi slots ^^ m) 0
                 \<and> (nextIndex gran tdi slots ^^ m) 0 < int (length slots)"
    using a by simp
  then obtain acc' where r: "renderTimeCellsLoop gran tdi slots 0 []
                = renderTimeCellsLoop gran tdi slots i acc'"
    unfolding i_def using renderTimeCellsLoop_reach by blast
  have b: "0 \<le> i" "i < int (length slots)" using a unfolding i_def by blast+
  have f: "foundAt tdi slots i = Some item" using a unfolding i_def by blast
  have z: "durationMins item div gran = 0" using a by (simp add: div_pos_pos_trivial)
  show "renderTimeCellsLoop gran tdi slots 0 [] = None"
    unfolding r by (rule renderTimeCellsLoop_stuck [OF b f z])
qed

text \<open>
  The theorem at the axis and the item of the end-to-end scenario, and at a new scheduler
  that received one item of 20 minutes: its placement pass does not return.
\<close>

theorem renderTimeCells_termination_witness:
  "(\<exists>cells. renderTimeCellsLoop 30
        (Some [\<lparr> itemId = 1, day = 1735344000000, caption = JNull, startTimeMins = 540,
                 durationMins = 60, data = JObj \<rparr>])
        [(480, False), (510, False), (540, True), (570, True), (600, False), (630, False)] 0 []
        = Some (Inr cells)
      \<and> tiles [(480, False), (510, False), (540, True), (570, True), (600, False), (630, False)]
           0 cells)
   \<and> renderTimeCells 1735344000000
        (snd (addItem (plainSpec 1735344000000 540 20) 1735300000000 (constructor 1735300000000 0)))
      = None"
proof -
  let ?slots = "[(480, False), (510, False), (540, True), (570, True), (600, False), (630, False)]
                  :: (int \<times> bool) list"
  let ?tdi = "Some [\<lparr> itemId = 1, day = 1735344000000, caption = JNull, startTimeMins = 540,
                      durationMins = 60, data = JObj \<rparr>]"
  have h1: "(0::int) < 30 \<and> (\<forall>item\<in>set (dayItems ?tdi). (startTimeMins item, True) \<in> set ?slots
                     \<longrightarrow> 30 \<le> durationMins item)"
    by (simp add: dayItems_def)
  have c1: "\<exists>cells. renderTimeCellsLoop 30 ?tdi ?slots 0 [] = Some (Inr cells)
                   \<and> tiles ?slots 0 cells"
    using renderTimeCells_termination [of 30 ?tdi ?slots] h1 by blast
  let ?s = "snd (addItem (plainSpec 1735344000000 540 20) 1735300000000
                   (constructor 1735300000000 0))"
  let ?short = "\<lparr> itemId = 1, day = 1735344000000, caption = JNull, startTimeMins = 540,
                  durationMins = 20, data = JObj \<rparr>"
  let ?sl = "[(480, False), (510, False), (540, True), (570, False), (600, False)]
               :: (int \<times> bool) list"
  have g: "get_timeSlotsView ?s = Some (?sl, ?s\<lparr> priv_timeSlotsView := Some ?sl \<rparr>)"
    by code_simp
  have t: "calculateTheDaysItems 1735344000000 ?s = Some [?short]"
    by code_simp
  have gr: "timeViewGranularityMins (?s\<lparr> priv_timeSlotsView := Some ?sl \<rparr>) = 30"
    by code_simp
  have p0: "0 \<le> (nextIndex 30 (Some [?short]) ?sl ^^ 0) 0
            \<and> (nextIndex 30 (Some [?short]) ?sl ^^ 0) 0 < int (length ?sl)"
    by code_simp
  have p1: "0 \<le> (nextIndex 30 (Some [?short]) ?sl ^^ 1) 0
            \<and> (nextIndex 30 (Some [?short]) ?sl ^^ 1) 0 < int (length ?sl)"
    by code_simp
  have p2: "0 \<le> (nextIndex 30 (Some [?short]) ?sl ^^ 2) 0
            \<and> (nextIndex 30 (Some [?short]) ?sl ^^ 2) 0 < int (length ?sl)"
    by code_simp
  have f: "foundAt (Some [?short]) ?sl ((nextIndex 30 (Some [?short]) ?sl ^^ 2) 0) = Some ?short"
    by code_simp
  have pm: "0 \<le> (nextIndex 30 (Some [?short]) ?sl ^^ m) 0
            \<and> (nextIndex 30 (Some [?short]) ?sl ^^ m) 0 < int (length ?sl)"
    if "m \<le> 2" for m
  proof -
    from that have "m = 0 \<or> m = 1 \<or> m = 2" by arith
    then show ?thesis using p0 p1 p2 by blast
  qed
  have d1: "0 \<le> durationMins ?short" by simp
  have d2: "durationMins ?short < 30" by simp
  have z: "(0::int) < 30" by simp
  have h2a: "\<forall>m\<le>2. 0 \<le> (nextIndex 30 (Some [?short]) ?sl ^^ m) 0
                 \<and> (nextIndex 30 (Some [?short]) ?sl ^^ m) 0 < int (length ?sl)"
    using pm by blast
  have h2: "(0::int) < 30
       \<and> (\<forall>m\<le>2. 0 \<le> (nextIndex 30 (Some [?short]) ?sl ^^ m) 0
                 \<and> (nextIndex 30 (Some [?short]) ?sl ^^ m) 0 < int (length ?sl))
       \<and> foundAt (Some [?short]) ?sl ((nextIndex 30 (Some [?short]) ?sl ^^ 2) 0) = Some ?short
       \<and> 0 \<le> durationMins ?short \<and> durationMins ?short < 30"
    by (intro conjI z h2a f d1 d2)
  have c2: "renderTimeCellsLoop 30 (Some [?short]) ?sl 0 [] = None"
    by (rule mp [OF conjunct2 [OF renderTimeCells_termination
                                    [of 30 "Some [?short]" ?sl 2 ?short]] h2])
  have "renderTimeCells 1735344000000 ?s = None"
    unfolding renderTimeCells_def Let_def g t by (simp only: option.case prod.case gr c2)
  with c1 show ?thesis by blast
qed

text \<open>
  Claim C10 as stated fails in two places. With one item of 60 minutes (two granularities)
  the axis has six slots and the pass returns five cells: the slot the item spans gets no
  cell. And an item shorter than the granularity does not always make the pass run for
  ever: with a duration of -90 minutes the span is -3, the index becomes negative and the
  pass ends with a \<^verbatim>\<open>TypeError\<close>.
\<close>

theorem cells_fewer_than_slots_or_TypeError:
  "map_option (length \<circ> fst)
      (get_timeSlotsView (snd (addItem (plainSpec 1735344000000 540 60) 1735300000000
                                 (constructor 1735300000000 0)))) = Some 6
   \<and> map_option (map_sum id length \<circ> fst)
      (renderTimeCells 1735344000000
         (snd (addItem (plainSpec 1735344000000 540 60) 1735300000000
                 (constructor 1735300000000 0)))) = Some (Inr 5)
   \<and> map_option fst
      (renderTimeCells 1735344000000
         (snd (addItem (plainSpec 1735344000000 600 60) 1735300000000
            (snd (addItem (plainSpec 1735344000000 540 (- 90)) 1735300000000
                    (constructor 1735300000000 0)))))) = Some (Inl TypeError)"
  by code_simp

end
